theory Spec2Isabelle
  imports Main "HOL-Library.Char_ord" "HOL-Library.List_Lexorder"
begin

section \<open>The layered configuration store of libqutim (config.cpp)\<close>

text \<open>
  The development embeds \<^verbatim>\<open>src/core/libqutim/config.cpp\<close>: the node type
  \<^verbatim>\<open>ConfigAtom\<close>, the navigation frame \<^verbatim>\<open>ConfigLevel\<close>, the cursor
  \<^verbatim>\<open>ConfigPrivate\<close>/\<^verbatim>\<open>Config\<close>, the backing document \<^verbatim>\<open>ConfigSource\<close> with its
  cache \<^verbatim>\<open>ConfigSourceHash\<close>, and the deferred saver \<^verbatim>\<open>PostConfigSaver\<close>.

  Atoms are shared through \<^verbatim>\<open>QSharedPointer\<close> and mutated in place, so they live in an
  explicit store: a list of atoms, an address being an index, \<^verbatim>\<open>Ptr::create\<close> appending
  a cell. A null \<^verbatim>\<open>Ptr()\<close> is \<open>None\<close>. A failed \<^verbatim>\<open>Q_ASSERT\<close> and the dereference of a
  null pointer are error values.
\<close>

subsection \<open>Tree values (QVariant)\<close>

text \<open>
  \<^verbatim>\<open>QVariant\<close> is Qt's. The model keeps what the code distinguishes: the invalid variant
  \<^verbatim>\<open>QVariant()\<close>, a \<^verbatim>\<open>QVariantMap\<close> (a \<^verbatim>\<open>QMap\<close>: entries in key order), a
  \<^verbatim>\<open>QVariantList\<close>, and scalars. \<^verbatim>\<open>QVariant::isValid()\<close> is false for the invalid variant
  only. \<^verbatim>\<open>QVariant::isNull()\<close> is true for the invalid variant and for a variant that wraps
  a null value of a type with an \<^verbatim>\<open>isNull\<close> of its own; \<open>SNullString\<close> is the variant of
  the null string \<^verbatim>\<open>QString()\<close>. The comparison \<^verbatim>\<open>!=\<close> of two variants is modelled by
  inequality of the model's values.
\<close>

datatype scalar = SBool bool | SInt int | SString string | SNullString

datatype variant =
    Invalid
  | VMap "(string \<times> variant) list"
  | VList "variant list"
  | VScalar scalar

fun isValid_variant :: "variant \<Rightarrow> bool" where
  "isValid_variant Invalid = False"
| "isValid_variant _ = True"


subsection \<open>QMap: entries kept in key order, keys unique\<close>

fun qmap_insert :: "string \<Rightarrow> 'a \<Rightarrow> (string \<times> 'a) list \<Rightarrow> (string \<times> 'a) list" where
  "qmap_insert k v [] = [(k, v)]"
| "qmap_insert k v ((k', v') # m) =
     (if k = k' then (k, v) # m
      else if k < k' then (k, v) # (k', v') # m
      else (k', v') # qmap_insert k v m)"

text \<open>\<^verbatim>\<open>QMap::remove\<close> returns the number of entries it removed.\<close>

definition qmap_remove :: "string \<Rightarrow> (string \<times> 'a) list \<Rightarrow> nat \<times> (string \<times> 'a) list" where
  "qmap_remove k m =
     (length (filter (\<lambda>e. fst e = k) m), filter (\<lambda>e. fst e \<noteq> k) m)"

subsection \<open>ConfigAtom\<close>

datatype error = AssertFailed | NullPointer

datatype Type = List | Map | Value | Null

text \<open>
  The tagged union of the class: \<^verbatim>\<open>m_type\<close> with the buffer that holds a
  \<^verbatim>\<open>ConfigMap\<close> (\<^verbatim>\<open>QMap<QString, Ptr>\<close>), a \<^verbatim>\<open>ConfigList\<close> (\<^verbatim>\<open>QVector<Ptr>\<close>) or a
  \<^verbatim>\<open>ConfigValue\<close> (\<^verbatim>\<open>QVariant\<close>). Children are addresses of the store.
\<close>

datatype payload =
    PList "nat list"
  | PMap "(string \<times> nat) list"
  | PValue variant
  | PNull

record ConfigAtom =
  m_data :: payload
  m_readOnly :: bool

type_synonym heap = "ConfigAtom list"

fun payload_type :: "payload \<Rightarrow> Type" where
  "payload_type (PList _) = List"
| "payload_type (PMap _) = Map"
| "payload_type (PValue _) = Value"
| "payload_type PNull = Null"

definition m_type :: "ConfigAtom \<Rightarrow> Type" where
  "m_type a = payload_type (m_data a)"

definition isReadOnly :: "ConfigAtom \<Rightarrow> bool" where
  "isReadOnly a = m_readOnly a"

definition isMap :: "ConfigAtom \<Rightarrow> bool" where
  "isMap a = (m_type a = Map)"

definition isList :: "ConfigAtom \<Rightarrow> bool" where
  "isList a = (m_type a = List)"

definition isValue :: "ConfigAtom \<Rightarrow> bool" where
  "isValue a = (m_type a = Value)"

definition isNull :: "ConfigAtom \<Rightarrow> bool" where
  "isNull a = (m_type a = Null)"

text \<open>The payload read as a map or a list (empty for another tag).\<close>

fun map_of_payload :: "payload \<Rightarrow> (string \<times> nat) list" where
  "map_of_payload (PMap m) = m"
| "map_of_payload _ = []"

fun list_of_payload :: "payload \<Rightarrow> nat list" where
  "list_of_payload (PList l) = l"
| "list_of_payload _ = []"

definition atom_map :: "heap \<Rightarrow> nat \<Rightarrow> (string \<times> nat) list" where
  "atom_map h p = map_of_payload (m_data (h ! p))"

definition atom_list :: "heap \<Rightarrow> nat \<Rightarrow> nat list" where
  "atom_list h p = list_of_payload (m_data (h ! p))"

text \<open>\<^verbatim>\<open>Ptr::create(readOnly)\<close>: a fresh atom of type Null at the next address.\<close>

definition Ptr_create :: "bool \<Rightarrow> heap \<Rightarrow> nat \<times> heap" where
  "Ptr_create readOnly h = (length h, h @ [\<lparr>m_data = PNull, m_readOnly = readOnly\<rparr>])"

definition set_data :: "nat \<Rightarrow> payload \<Rightarrow> heap \<Rightarrow> heap" where
  "set_data p d h = h[p := (h ! p)\<lparr>m_data := d\<rparr>]"

text \<open>\<^verbatim>\<open>clear\<close> destroys the payload; \<^verbatim>\<open>ensureMap\<close>, \<^verbatim>\<open>ensureList\<close> and
  \<^verbatim>\<open>ensureValue\<close> replace a payload of another tag by an empty one of theirs.\<close>

definition clear :: "nat \<Rightarrow> heap \<Rightarrow> heap" where
  "clear p h = set_data p PNull h"

definition ensureMap :: "nat \<Rightarrow> heap \<Rightarrow> heap" where
  "ensureMap p h = (if m_type (h ! p) \<noteq> Map then set_data p (PMap []) h else h)"

definition ensureList :: "nat \<Rightarrow> heap \<Rightarrow> heap" where
  "ensureList p h = (if m_type (h ! p) \<noteq> List then set_data p (PList []) h else h)"

definition ensureValue :: "nat \<Rightarrow> heap \<Rightarrow> heap" where
  "ensureValue p h = (if m_type (h ! p) \<noteq> Value then set_data p (PValue Invalid) h else h)"

text \<open>
  \<^verbatim>\<open>toVariant\<close> follows the child pointers. Every child is created after its parent
  (\<^verbatim>\<open>child\<close>, \<^verbatim>\<open>fromVariant\<close> and \<^verbatim>\<open>replace\<close> link only atoms younger than the
  parent), so a child has a larger address; the recursion descends along larger
  addresses, and reads an address outside the store or a child that is not younger as
  the invalid variant.
\<close>

function toVariant :: "heap \<Rightarrow> nat \<Rightarrow> variant" where
  "toVariant h p =
     (if p < length h then
        (case m_data (h ! p) of
           PMap m \<Rightarrow> VMap (map (\<lambda>(k, c). (k, if p < c then toVariant h c else Invalid)) m)
         | PList l \<Rightarrow> VList (map (\<lambda>c. if p < c then toVariant h c else Invalid) l)
         | PValue v \<Rightarrow> v
         | PNull \<Rightarrow> Invalid)
      else Invalid)"
  by pat_completeness auto
termination
  by (relation "measure (\<lambda>(h, p). length h - p)") auto

declare toVariant.simps [simp del]

text \<open>\<^verbatim>\<open>fromVariant\<close>: the result atom is created first, then its children in the
  order of the input.\<close>

function fromVariant :: "variant \<Rightarrow> bool \<Rightarrow> heap \<Rightarrow> nat \<times> heap"
  and fromVariant_map :: "(string \<times> variant) list \<Rightarrow> bool \<Rightarrow> nat \<Rightarrow> heap \<Rightarrow> heap"
  and fromVariant_list :: "variant list \<Rightarrow> bool \<Rightarrow> nat \<Rightarrow> heap \<Rightarrow> heap"
where
  "fromVariant Invalid readOnly h = Ptr_create readOnly h"
| "fromVariant (VMap input) readOnly h =
     (let (result, h1) = Ptr_create readOnly h
      in (result, fromVariant_map input readOnly result (ensureMap result h1)))"
| "fromVariant (VList input) readOnly h =
     (let (result, h1) = Ptr_create readOnly h
      in (result, fromVariant_list input readOnly result (ensureList result h1)))"
| "fromVariant (VScalar s) readOnly h =
     (let (result, h1) = Ptr_create readOnly h
      in (result, set_data result (PValue (VScalar s)) (ensureValue result h1)))"
| "fromVariant_map [] readOnly result h = h"
| "fromVariant_map (e # input) readOnly result h =
     (let (c, h1) = fromVariant (snd e) readOnly h
      in fromVariant_map input readOnly result
           (set_data result (PMap (qmap_insert (fst e) c (atom_map h1 result))) h1))"
| "fromVariant_list [] readOnly result h = h"
| "fromVariant_list (v # input) readOnly result h =
     (let (c, h1) = fromVariant v readOnly h
      in fromVariant_list input readOnly result
           (set_data result (PList (atom_list h1 result @ [c])) h1))"
  by pat_completeness auto
termination
  by (relation "measure (\<lambda>x. case x of
          Inl (v, _, _) \<Rightarrow> 2 * size v
        | Inr (Inl (m, _, _, _)) \<Rightarrow> 2 * size_list (\<lambda>e. Suc (size (snd e))) m + 1
        | Inr (Inr (l, _, _, _)) \<Rightarrow> 2 * size_list size l + 1)")
     (auto simp: size_prod_simp)

text \<open>
  \<^verbatim>\<open>child(const QString &)\<close>: on a writable atom the payload is first made a map; a
  missing key gives a null pointer on a read-only map and a fresh Null child, inserted
  into the map, on a writable one.
\<close>

definition child :: "string \<Rightarrow> nat \<Rightarrow> heap \<Rightarrow> error + (nat option \<times> heap)" where
  "child name p h =
     (if \<not> (\<not> m_readOnly (h ! p) \<or> isMap (h ! p)) then Inl AssertFailed
      else
        let h1 = ensureMap p h
        in case map_of (atom_map h1 p) name of
             Some c \<Rightarrow> Inr (Some c, h1)
           | None \<Rightarrow>
               if m_readOnly (h1 ! p) then Inr (None, h1)
               else
                 let (c, h2) = Ptr_create (m_readOnly (h1 ! p)) h1
                 in Inr (Some c, set_data p (PMap (qmap_insert name c (atom_map h2 p))) h2))"

text \<open>The loop \<^verbatim>\<open>while (list.size() <= index) list.append(create(m_readOnly))\<close>.\<close>

function grow_list :: "int \<Rightarrow> nat \<Rightarrow> heap \<Rightarrow> heap" where
  "grow_list index p h =
     (if p < length h \<and> int (length (atom_list h p)) \<le> index then
        (let (c, h1) = Ptr_create (m_readOnly (h ! p)) h
         in grow_list index p (set_data p (PList (atom_list h1 p @ [c])) h1))
      else h)"
  by pat_completeness auto
termination
  by (relation "measure (\<lambda>(index, p, h). nat (index + 1 - int (length (atom_list h p))))")
     (auto simp: Ptr_create_def set_data_def atom_list_def nth_append)

declare grow_list.simps [simp del]

text \<open>\<^verbatim>\<open>child(int)\<close>; \<^verbatim>\<open>QVector::at\<close> asserts that the index is in range.\<close>

definition child_index :: "int \<Rightarrow> nat \<Rightarrow> heap \<Rightarrow> error + (nat option \<times> heap)" where
  "child_index index p h =
     (if \<not> (\<not> m_readOnly (h ! p) \<or> isList (h ! p)) then Inl AssertFailed
      else
        let h1 = ensureList p h
        in if m_readOnly (h1 ! p) \<and> int (length (atom_list h1 p)) \<le> index then Inr (None, h1)
           else
             let h2 = grow_list index p h1
             in if index < 0 \<or> int (length (atom_list h2 p)) \<le> index then Inl AssertFailed
                else Inr (Some (atom_list h2 p ! nat index), h2))"

definition arraySize :: "nat \<Rightarrow> heap \<Rightarrow> error + int" where
  "arraySize p h =
     (if \<not> isList (h ! p) then Inl AssertFailed else Inr (int (length (atom_list h p))))"

text \<open>\<^verbatim>\<open>remove(int)\<close>; \<^verbatim>\<open>QVector::remove\<close> asserts that the index is in range.\<close>

definition remove_index :: "int \<Rightarrow> nat \<Rightarrow> heap \<Rightarrow> error + (bool \<times> heap)" where
  "remove_index index p h =
     (if \<not> isList (h ! p) then Inl AssertFailed
      else
        let l = atom_list h p
        in if int (length l) \<le> index then Inr (False, h)
           else if index < 0 then Inl AssertFailed
           else Inr (True, set_data p (PList (take (nat index) l @ drop (Suc (nat index)) l)) h))"

definition remove_name :: "string \<Rightarrow> nat \<Rightarrow> heap \<Rightarrow> error + (bool \<times> heap)" where
  "remove_name name p h =
     (if \<not> isMap (h ! p) then Inl AssertFailed
      else
        let (n, m) = qmap_remove name (atom_map h p)
        in Inr (n > 0, set_data p (PMap m) h))"

text \<open>\<^verbatim>\<open>replace\<close>: the map is written only when the key is missing or the stored
  child's tree value differs from the new node's.\<close>

definition replace :: "string \<Rightarrow> nat \<Rightarrow> nat \<Rightarrow> heap \<Rightarrow> error + (bool \<times> heap)" where
  "replace name v p h =
     (if \<not> isMap (h ! p) then Inl AssertFailed
      else
        let m = atom_map h p
        in if (case map_of m name of
                 None \<Rightarrow> True
               | Some old \<Rightarrow> toVariant h old \<noteq> toVariant h v)
           then Inr (True, set_data p (PMap (qmap_insert name v m)) h)
           else Inr (False, h))"

definition convert :: "Type \<Rightarrow> nat \<Rightarrow> heap \<Rightarrow> heap" where
  "convert type p h =
     (if m_type (h ! p) = type then h
      else case type of
             Map \<Rightarrow> ensureMap p h
           | List \<Rightarrow> ensureList p h
           | Value \<Rightarrow> ensureValue p h
           | Null \<Rightarrow> clear p h)"

subsection \<open>ConfigLevel\<close>

record ConfigLevel =
  atoms :: "nat list"
  arrayElement :: bool

text \<open>
  \<^verbatim>\<open>ConfigLevel::map\<close>: the callback sees each atom with the flag
  \<^verbatim>\<open>atom->isReadOnly() || !first\<close>; the non-null results make the new level, whose
  \<^verbatim>\<open>arrayElement\<close> is false.
\<close>

fun map_loop ::
  "(nat \<Rightarrow> bool \<Rightarrow> heap \<Rightarrow> error + (nat option \<times> heap)) \<Rightarrow> nat list \<Rightarrow> bool \<Rightarrow> nat list \<Rightarrow> heap
     \<Rightarrow> error + (nat list \<times> heap)" where
  "map_loop callback [] first results h = Inr (results, h)"
| "map_loop callback (atom # rest) first results h =
     (let isReadOnly = (isReadOnly (h ! atom) \<or> \<not> first)
      in case callback atom isReadOnly h of
           Inl e \<Rightarrow> Inl e
         | Inr (result, h1) \<Rightarrow>
             map_loop callback rest False
               (case result of None \<Rightarrow> results | Some r \<Rightarrow> results @ [r]) h1)"

definition level_map ::
  "(nat \<Rightarrow> bool \<Rightarrow> heap \<Rightarrow> error + (nat option \<times> heap)) \<Rightarrow> ConfigLevel \<Rightarrow> heap
     \<Rightarrow> error + (ConfigLevel \<times> heap)" where
  "level_map callback level h =
     (case map_loop callback (atoms level) True [] h of
        Inl e \<Rightarrow> Inl e
      | Inr (results, h1) \<Rightarrow> Inr (\<lparr>atoms = results, arrayElement = False\<rparr>, h1))"

definition level_child_index :: "int \<Rightarrow> ConfigLevel \<Rightarrow> heap \<Rightarrow> error + (ConfigLevel \<times> heap)" where
  "level_child_index index =
     level_map (\<lambda>atom readOnly h.
       if readOnly \<and> \<not> isList (h ! atom) then Inr (None, h) else child_index index atom h)"

definition level_child :: "string \<Rightarrow> ConfigLevel \<Rightarrow> heap \<Rightarrow> error + (ConfigLevel \<times> heap)" where
  "level_child name =
     level_map (\<lambda>atom readOnly h.
       if readOnly \<and> \<not> isMap (h ! atom) then Inr (None, h) else child name atom h)"

fun level_child_loop :: "string list \<Rightarrow> ConfigLevel \<Rightarrow> heap \<Rightarrow> error + (ConfigLevel \<times> heap)" where
  "level_child_loop [] level h = Inr (level, h)"
| "level_child_loop (name # names) level h =
     (case level_child name level h of
        Inl e \<Rightarrow> Inl e
      | Inr (level1, h1) \<Rightarrow> level_child_loop names level1 h1)"

definition level_child_names ::
  "string list \<Rightarrow> ConfigLevel \<Rightarrow> heap \<Rightarrow> error + (ConfigLevel \<times> heap)" where
  "level_child_names names level h =
     (if names = [] then Inl AssertFailed
      else case level_child (hd names) level h of
             Inl e \<Rightarrow> Inl e
           | Inr (level1, h1) \<Rightarrow> level_child_loop (tl names) level1 h1)"

definition level_convert :: "Type \<Rightarrow> ConfigLevel \<Rightarrow> heap \<Rightarrow> error + (ConfigLevel \<times> heap)" where
  "level_convert type =
     level_map (\<lambda>atom readOnly h.
       if readOnly \<and> m_type (h ! atom) \<noteq> type then Inr (None, h)
       else Inr (Some atom, if m_type (h ! atom) \<noteq> type then convert type atom h else h))"

subsection \<open>Strings: indexOf, lastIndexOf, mid, parseNames\<close>

text \<open>\<^verbatim>\<open>QString::indexOf(ch, from)\<close> and \<^verbatim>\<open>lastIndexOf(ch)\<close> give \<open>-1\<close> when the
  character does not occur; \<^verbatim>\<open>mid(position, n)\<close> with a negative \<open>n\<close> is the rest of
  the string.\<close>

fun index_from :: "char \<Rightarrow> string \<Rightarrow> int \<Rightarrow> int" where
  "index_from ch [] i = -1"
| "index_from ch (x # xs) i = (if x = ch then i else index_from ch xs (i + 1))"

definition indexOf :: "string \<Rightarrow> char \<Rightarrow> int \<Rightarrow> int" where
  "indexOf s ch from = index_from ch (drop (nat from) s) (int (nat from))"

fun last_index_from :: "char \<Rightarrow> string \<Rightarrow> int \<Rightarrow> int \<Rightarrow> int" where
  "last_index_from ch [] i found = found"
| "last_index_from ch (x # xs) i found =
     last_index_from ch xs (i + 1) (if x = ch then i else found)"

definition lastIndexOf :: "string \<Rightarrow> char \<Rightarrow> int" where
  "lastIndexOf s ch = last_index_from ch s 0 (-1)"

definition mid :: "string \<Rightarrow> int \<Rightarrow> int \<Rightarrow> string" where
  "mid s position n =
     (if n < 0 then drop (nat position) s else take (nat n) (drop (nat position) s))"

text \<open>The do-while loop of \<^verbatim>\<open>parseNames\<close>; it ends when \<^verbatim>\<open>first\<close>, one past the
  slash found, is 0, that is when no slash was found.\<close>

function parseNames_loop :: "string \<Rightarrow> int \<Rightarrow> string list \<Rightarrow> string list" where
  "parseNames_loop fullName first names =
     (let last = indexOf fullName (CHR ''/'') first;
          name = mid fullName first (if last \<noteq> -1 then last - first else last);
          first1 = last + 1;
          names1 = (if name \<noteq> [] then names @ [name] else names)
      in if first1 \<noteq> 0 then parseNames_loop fullName first1 names1 else names1)"
  by pat_completeness auto
termination
proof (relation "measure (\<lambda>(fullName, first, names). length fullName + 1 - nat first)")
  show "wf (measure (\<lambda>(fullName, first, names). length fullName + 1 - nat first))"
    by simp
next
  fix fullName :: string and first :: int and names :: "string list"
  fix x xa xb xc
  assume x: "x = indexOf fullName (CHR ''/'') first"
    and xb: "xb = x + 1" and nz: "xb \<noteq> 0"
  have aux: "index_from ch xs i = -1 \<or> (i \<le> index_from ch xs i \<and> index_from ch xs i < i + int (length xs))"
    for ch xs i
    by (induction xs arbitrary: i) (auto, force+)
  have "x = -1 \<or> (int (nat first) \<le> x \<and> x < int (nat first) + int (length (drop (nat first) fullName)))"
    unfolding x indexOf_def by (rule aux)
  with nz xb have "int (nat first) \<le> x \<and> x < int (nat first) + int (length (drop (nat first) fullName))"
    by auto
  then have "nat first < nat xb \<and> nat xb \<le> length fullName"
    unfolding xb length_drop by linarith
  then show "((fullName, xb, xc), fullName, first, names)
      \<in> measure (\<lambda>(fullName, first, names). length fullName + 1 - nat first)"
    by auto
qed

declare parseNames_loop.simps [simp del]

definition parseNames :: "string \<Rightarrow> string list" where
  "parseNames fullName = parseNames_loop fullName 0 []"

subsection \<open>File system, backends, path functions\<close>

text \<open>
  The file system, the backends' codecs and Qt's path functions are outside the
  repository; the code reads them through \<^verbatim>\<open>QFileInfo\<close>, \<^verbatim>\<open>QDir\<close>,
  \<^verbatim>\<open>SystemInfo::getDir\<close> and \<^verbatim>\<open>ConfigBackend\<close>. They are parameters of the model: a
  record of the file system's answers (part of the state: \<^verbatim>\<open>mkpath\<close> and a backend's
  \<^verbatim>\<open>save\<close> change it), a record per backend, and a record of the path functions with
  the list \<^verbatim>\<open>all_config_backends\<close>. A \<^verbatim>\<open>QDateTime\<close> is \<open>None\<close> when invalid (the
  modification time of a file that does not exist).
\<close>

record FileSystem =
  file_exists :: "string \<Rightarrow> bool"
  file_isWritable :: "string \<Rightarrow> bool"
  file_lastModified :: "string \<Rightarrow> nat option"
  dir_exists :: "string \<Rightarrow> bool"

record ConfigBackend =
  backend_name :: string
  load :: "string \<Rightarrow> FileSystem \<Rightarrow> variant"
  save :: "string \<Rightarrow> variant \<Rightarrow> FileSystem \<Rightarrow> FileSystem"

datatype DirType = ConfigDir | SystemConfigDir

record Env =
  isAbsolute :: "string \<Rightarrow> bool"
  getDir_filePath :: "DirType \<Rightarrow> string \<Rightarrow> string"
  cleanPath :: "string \<Rightarrow> string"
  suffix :: "string \<Rightarrow> string"
  toLower :: "string \<Rightarrow> string"
  absoluteDir :: "string \<Rightarrow> string"
  all_config_backends :: "ConfigBackend list"

definition mkpath :: "string \<Rightarrow> FileSystem \<Rightarrow> FileSystem" where
  "mkpath dir fs = fs\<lparr>dir_exists := (dir_exists fs)(dir := True)\<rparr>"

subsection \<open>ConfigSource, ConfigSourceHash and the state of the process\<close>

record ConfigSource =
  fileName :: string
  backend :: "ConfigBackend option"
  dirty :: bool
  isAtLoop :: bool
  data :: "nat option"
  lastModified :: "nat option"

text \<open>
  A \<^verbatim>\<open>QBasicTimer\<close>: its id (0 when it is not running) and the interval it was started
  with, the \<^verbatim>\<open>msec\<close> argument of \<^verbatim>\<open>QBasicTimer::start(int msec, QObject *)\<close>, in
  milliseconds. The ids come from Qt; the model hands them out from a counter.
\<close>

record QBasicTimer =
  timerId :: int
  msec :: int

record Info =
  timer :: QBasicTimer
  config :: "nat option"

record ConfigSourceHash =
  m_hash :: "string \<rightharpoonup> Info"
  m_timers :: "int \<rightharpoonup> string"
  next_timerId :: int

definition timer_start :: "int \<Rightarrow> ConfigSourceHash \<Rightarrow> QBasicTimer \<times> ConfigSourceHash" where
  "timer_start interval sh =
     (\<lparr>timerId = next_timerId sh, msec = interval\<rparr>, sh\<lparr>next_timerId := next_timerId sh + 1\<rparr>)"

definition hash_value :: "string \<Rightarrow> ConfigSourceHash \<Rightarrow> nat option \<times> ConfigSourceHash" where
  "hash_value key sh =
     (case m_hash sh key of
        None \<Rightarrow> (None, sh)
      | Some it \<Rightarrow>
          let sh1 = sh\<lparr>m_timers := (m_timers sh)(timerId (timer it) := None)\<rparr>;
              (t, sh2) = timer_start (5 * 60) sh1;
              it1 = it\<lparr>timer := t\<rparr>;
              sh3 = sh2\<lparr>m_hash := (m_hash sh2)(key \<mapsto> it1),
                        m_timers := (m_timers sh2)(timerId t \<mapsto> key)\<rparr>
          in (config it1, sh3))"

definition hash_insert :: "string \<Rightarrow> nat option \<Rightarrow> ConfigSourceHash \<Rightarrow> ConfigSourceHash" where
  "hash_insert key v sh =
     (let it = (case m_hash sh key of
                  None \<Rightarrow> \<lparr>timer = \<lparr>timerId = 0, msec = 0\<rparr>, config = None\<rparr>
                | Some i \<Rightarrow> i);
          sh1 = sh\<lparr>m_timers := (m_timers sh)(timerId (timer it) := None)\<rparr>;
          (t, sh2) = timer_start (5 * 60) sh1;
          it1 = it\<lparr>timer := t\<rparr>
      in sh2\<lparr>m_hash := (m_hash sh2)(key \<mapsto> it1\<lparr>config := v\<rparr>),
             m_timers := (m_timers sh2)(timerId t \<mapsto> key)\<rparr>)"

definition hash_timerEvent :: "int \<Rightarrow> ConfigSourceHash \<Rightarrow> ConfigSourceHash" where
  "hash_timerEvent tid sh =
     (let key = (case m_timers sh tid of None \<Rightarrow> [] | Some k \<Rightarrow> k)
      in sh\<lparr>m_timers := (m_timers sh)(tid := None), m_hash := (m_hash sh)(key := None)\<rparr>)"

text \<open>
  The state: the store of atoms, the store of sources (a \<^verbatim>\<open>ConfigSource::Ptr\<close> is an
  index), the cache \<^verbatim>\<open>sourceHash()\<close>, the save events posted to \<^verbatim>\<open>postConfigSaver()\<close>
  and not yet dispatched (each names its source), and the file system.
\<close>

record world =
  atomStore :: heap
  sourceStore :: "ConfigSource list"
  sourceHash :: ConfigSourceHash
  postedEvents :: "nat list"
  fileSystem :: FileSystem

definition isValid :: "nat \<Rightarrow> world \<Rightarrow> bool" where
  "isValid s w =
     (file_lastModified (fileSystem w) (fileName (sourceStore w ! s)) = lastModified (sourceStore w ! s))"

definition makeDirty :: "nat \<Rightarrow> world \<Rightarrow> world" where
  "makeDirty s w = w\<lparr>sourceStore := (sourceStore w)[s := (sourceStore w ! s)\<lparr>dirty := True\<rparr>]\<rparr>"

text \<open>\<^verbatim>\<open>ConfigSource::sync\<close>: save through the backend, clear \<^verbatim>\<open>dirty\<close>, \<^verbatim>\<open>update()\<close>.\<close>

definition ConfigSource_sync :: "nat \<Rightarrow> world \<Rightarrow> error + world" where
  "ConfigSource_sync s w =
     (let src = sourceStore w ! s
      in case backend src of
           None \<Rightarrow> Inl NullPointer
         | Some b \<Rightarrow>
             (case data src of
                None \<Rightarrow> Inl NullPointer
              | Some dat \<Rightarrow>
                  let fs1 = save b (fileName src) (toVariant (atomStore w) dat) (fileSystem w)
                  in Inr (w\<lparr>fileSystem := fs1,
                            sourceStore := (sourceStore w)
                              [s := src\<lparr>dirty := False,
                                        lastModified := file_lastModified fs1 (fileName src)\<rparr>]\<rparr>)))"

subsection \<open>ConfigSource::open\<close>

text \<open>
  \<^verbatim>\<open>info\<close> is the \<^verbatim>\<open>QFileInfo\<close> of the name as given (or \<^verbatim>\<open>"profile"\<close>); it is set to
  the resolved name only where a backend is chosen by default. The function returns
  \<^verbatim>\<open>result\<close>, the answer of the last cache lookup, where the file or its directory is
  missing and \<^verbatim>\<open>create\<close> is false. The function is embedded in three parts: the choice
  of the backend (\<open>open_select_backend\<close>), the checks of the file and its directory
  (\<open>open_load\<close>), and the creation of the source from what the backend loads
  (\<open>open_read\<close>).
\<close>

definition open_select_backend ::
  "Env \<Rightarrow> ConfigBackend option \<Rightarrow> string \<Rightarrow> string \<Rightarrow> nat option \<Rightarrow> world
     \<Rightarrow> (nat option \<times> world) + (ConfigBackend \<times> string \<times> string \<times> nat option \<times> world)" where
  "open_select_backend env bcknd fname info result w =
     (case bcknd of
        Some b \<Rightarrow> Inr (b, fname, info, result, w)
      | None \<Rightarrow>
          let sfx = toLower env (suffix env info);
              backends = all_config_backends env
          in if backends = [] then Inl (None, w)
             else case (if sfx \<noteq> [] then find (\<lambda>b. backend_name b = sfx) backends else None) of
                    Some b \<Rightarrow> Inr (b, fname, info, result, w)
                  | None \<Rightarrow>
                      let b = hd backends;
                          fname1 = fname @ [CHR ''.''] @ backend_name b;
                          (result1, sh1) = hash_value fname1 (sourceHash w);
                          w1 = w\<lparr>sourceHash := sh1\<rparr>
                      in if (case result1 of None \<Rightarrow> False | Some r \<Rightarrow> isValid r w1)
                         then Inl (result1, w1)
                         else Inr (b, fname1, fname1, result1, w1))"

definition open_read ::
  "bool \<Rightarrow> bool \<Rightarrow> ConfigBackend \<Rightarrow> string \<Rightarrow> string \<Rightarrow> world \<Rightarrow> nat option \<times> world" where
  "open_read systemDir create b fname info w1 =
     (let r = length (sourceStore w1);
          readOnly = (\<not> file_isWritable (fileSystem w1) info
                      \<and> (systemDir \<or> file_exists (fileSystem w1) info));
          d = \<lparr>fileName = fname, backend = Some b, dirty = False, isAtLoop = False,
               data = None, lastModified = file_lastModified (fileSystem w1) fname\<rparr>;
          v = load b fname (fileSystem w1);
          (dat, h1) = fromVariant v readOnly (atomStore w1)
      in if isValue (h1 ! dat) \<or> isNull (h1 ! dat) then
           (if \<not> create
            then (None, w1\<lparr>atomStore := h1, sourceStore := sourceStore w1 @ [d\<lparr>data := Some dat\<rparr>]\<rparr>)
            else
              let (dat2, h2) = fromVariant (VMap []) readOnly h1;
                  w2 = w1\<lparr>atomStore := h2, sourceStore := sourceStore w1 @ [d\<lparr>data := Some dat2\<rparr>]\<rparr>
              in (Some r, w2\<lparr>sourceHash := hash_insert fname (Some r) (sourceHash w2)\<rparr>))
         else
           let w2 = w1\<lparr>atomStore := h1, sourceStore := sourceStore w1 @ [d\<lparr>data := Some dat\<rparr>]\<rparr>
           in (Some r, w2\<lparr>sourceHash := hash_insert fname (Some r) (sourceHash w2)\<rparr>))"

definition open_load ::
  "Env \<Rightarrow> bool \<Rightarrow> bool \<Rightarrow> ConfigBackend \<Rightarrow> string \<Rightarrow> string \<Rightarrow> nat option \<Rightarrow> world
     \<Rightarrow> nat option \<times> world" where
  "open_load env systemDir create b fname info result w =
     (if \<not> file_exists (fileSystem w) info \<and> \<not> create then (result, w)
      else
        let dir = absoluteDir env info
        in if \<not> dir_exists (fileSystem w) dir \<and> \<not> create then (result, w)
           else open_read systemDir create b fname info
                  (if \<not> dir_exists (fileSystem w) dir
                   then w\<lparr>fileSystem := mkpath dir (fileSystem w)\<rparr> else w))"

definition ConfigSource_open ::
  "Env \<Rightarrow> string \<Rightarrow> bool \<Rightarrow> bool \<Rightarrow> ConfigBackend option \<Rightarrow> world \<Rightarrow> nat option \<times> world" where
  "ConfigSource_open env path systemDir create bcknd w =
     (let fname0 = (if path = [] then ''profile'' else path);
          info = fname0
      in if isAbsolute env info \<and> systemDir then (None, w)
         else
           let fname1 = (if \<not> isAbsolute env info
                         then getDir_filePath env (if systemDir then SystemConfigDir else ConfigDir) fname0
                         else fname0);
               fname2 = cleanPath env fname1;
               (result, sh1) = hash_value fname2 (sourceHash w);
               w1 = w\<lparr>sourceHash := sh1\<rparr>
           in if (case result of None \<Rightarrow> False | Some r \<Rightarrow> isValid r w1) then (result, w1)
              else case open_select_backend env bcknd fname2 info result w1 of
                     Inl ret \<Rightarrow> ret
                   | Inr (b, fname3, info3, result3, w3) \<Rightarrow>
                       open_load env systemDir create b fname3 info3 result3 w3)"

subsection \<open>The deferred saver\<close>

text \<open>\<^verbatim>\<open>PostConfigSaver::event\<close> for a \<^verbatim>\<open>PostConfigSaveEvent\<close>, and the event loop
  delivering the oldest posted event.\<close>

definition PostConfigSaver_event :: "nat \<Rightarrow> world \<Rightarrow> error + world" where
  "PostConfigSaver_event source w =
     (case ConfigSource_sync source w of
        Inl e \<Rightarrow> Inl e
      | Inr w1 \<Rightarrow>
          Inr (w1\<lparr>sourceStore := (sourceStore w1)[source := (sourceStore w1 ! source)\<lparr>isAtLoop := False\<rparr>]\<rparr>))"

definition dispatch :: "world \<Rightarrow> error + world" where
  "dispatch w =
     (case postedEvents w of
        [] \<Rightarrow> Inr w
      | source # rest \<Rightarrow> PostConfigSaver_event source (w\<lparr>postedEvents := rest\<rparr>))"

subsection \<open>ConfigPrivate: the cursor\<close>

text \<open>
  \<^verbatim>\<open>levels\<close> has the current level first (\<^verbatim>\<open>current()\<close> is \<^verbatim>\<open>levels.first()\<close>, which
  asserts that the list is not empty). A level is written only while it is built, so
  the shared pointers to levels are modelled by the levels themselves. \<^verbatim>\<open>memoryGuard\<close>
  is the pointer to the parent cursor, \<open>None\<close> when null.
\<close>

record ConfigPrivate =
  levels :: "ConfigLevel list"
  sources :: "nat list"
  memoryGuard :: "nat option"

definition current :: "ConfigPrivate \<Rightarrow> ConfigLevel" where
  "current d = hd (levels d)"

text \<open>\<^verbatim>\<open>ConfigPrivate::sync\<close> looks at \<^verbatim>\<open>sources.value(0)\<close> only.\<close>

definition ConfigPrivate_sync :: "ConfigPrivate \<Rightarrow> world \<Rightarrow> world" where
  "ConfigPrivate_sync d w =
     (case sources d of
        [] \<Rightarrow> w
      | source # _ \<Rightarrow>
          if dirty (sourceStore w ! source) \<and> \<not> isAtLoop (sourceStore w ! source) then
            w\<lparr>sourceStore := (sourceStore w)
                 [source := (sourceStore w ! source)\<lparr>isAtLoop := True, dirty := False\<rparr>],
              postedEvents := postedEvents w @ [source]\<rparr>
          else w)"

text \<open>The body of \<^verbatim>\<open>~ConfigPrivate\<close>. (The members are released afterwards; releasing
  \<^verbatim>\<open>memoryGuard\<close> may destroy the parent cursor, which then runs this body itself.)\<close>

definition ConfigPrivate_destroy :: "ConfigPrivate \<Rightarrow> world \<Rightarrow> world" where
  "ConfigPrivate_destroy d w = (if memoryGuard d = None then ConfigPrivate_sync d w else w)"

text \<open>\<^verbatim>\<open>ConfigPrivate::clone\<close>: a new cursor with one level, a copy of the current one.\<close>

definition clone :: "ConfigPrivate \<Rightarrow> error + ConfigPrivate" where
  "clone d =
     (if levels d = [] then Inl AssertFailed
      else Inr \<lparr>levels = [current d], sources = sources d, memoryGuard = None\<rparr>)"

subsection \<open>Config\<close>

record CryptoService =
  crypt :: "variant \<Rightarrow> variant"
  decrypt :: "variant \<Rightarrow> variant"

datatype ValueFlags = Normal | Crypted

definition Config_beginGroup ::
  "string \<Rightarrow> ConfigPrivate \<Rightarrow> world \<Rightarrow> error + (ConfigPrivate \<times> world)" where
  "Config_beginGroup fullName d w =
     (if fullName = [] then Inl AssertFailed
      else
        let names = parseNames fullName
        in if names = [] then Inl AssertFailed
           else if levels d = [] then Inl AssertFailed
           else case level_child_names names (current d) (atomStore w) of
                  Inl e \<Rightarrow> Inl e
                | Inr (level1, h1) \<Rightarrow>
                    (case level_convert Map level1 h1 of
                       Inl e \<Rightarrow> Inl e
                     | Inr (level2, h2) \<Rightarrow>
                         Inr (d\<lparr>levels := level2 # levels d\<rparr>, w\<lparr>atomStore := h2\<rparr>)))"

definition Config_endGroup :: "ConfigPrivate \<Rightarrow> error + ConfigPrivate" where
  "Config_endGroup d =
     (if \<not> length (levels d) > 1 then Inl AssertFailed else Inr (d\<lparr>levels := tl (levels d)\<rparr>))"

text \<open>\<^verbatim>\<open>Config::remove(const QString &)\<close>: \<^verbatim>\<open>atoms.value(0)\<close> is a null pointer when the
  level has no atom; \<^verbatim>\<open>sources.first()\<close> asserts that the list is not empty.\<close>

definition Config_remove ::
  "string \<Rightarrow> ConfigPrivate \<Rightarrow> world \<Rightarrow> error + (ConfigPrivate \<times> world)" where
  "Config_remove name d w =
     (if levels d = [] then Inl AssertFailed
      else case atoms (current d) of
             [] \<Rightarrow> Inl NullPointer
           | atom # _ \<Rightarrow>
               (case remove_name name atom (atomStore w) of
                  Inl e \<Rightarrow> Inl e
                | Inr (removed, h1) \<Rightarrow>
                    if removed then
                      (if sources d = [] then Inl AssertFailed
                       else Inr (d, makeDirty (hd (sources d)) (w\<lparr>atomStore := h1\<rparr>)))
                    else Inr (d, w\<lparr>atomStore := h1\<rparr>)))"

text \<open>The loop of \<^verbatim>\<open>Config::arraySize\<close>: the size of the first atom whose list is not
  empty.\<close>

fun arraySize_loop :: "nat list \<Rightarrow> int \<Rightarrow> heap \<Rightarrow> error + int" where
  "arraySize_loop [] sz h = Inr sz"
| "arraySize_loop (atom # rest) sz h =
     (case arraySize atom h of
        Inl e \<Rightarrow> Inl e
      | Inr sz1 \<Rightarrow> if sz1 > 0 then Inr sz1 else arraySize_loop rest sz1 h)"

definition Config_arraySize :: "ConfigPrivate \<Rightarrow> world \<Rightarrow> error + int" where
  "Config_arraySize d w =
     (if levels d = [] then Inl AssertFailed
      else if arrayElement (current d) \<and> \<not> length (levels d) > 1 then Inl AssertFailed
      else
        let level = (if arrayElement (current d) then levels d ! 1 else current d)
        in arraySize_loop (atoms level) 0 (atomStore w))"

definition Config_beginArray ::
  "string \<Rightarrow> ConfigPrivate \<Rightarrow> world \<Rightarrow> error + (int \<times> ConfigPrivate \<times> world)" where
  "Config_beginArray name d w =
     (if name = [] then Inl AssertFailed
      else if levels d = [] then Inl AssertFailed
      else case level_child_names (parseNames name) (current d) (atomStore w) of
             Inl e \<Rightarrow> Inl e
           | Inr (level1, h1) \<Rightarrow>
               (case level_convert List level1 h1 of
                  Inl e \<Rightarrow> Inl e
                | Inr (level2, h2) \<Rightarrow>
                    let d1 = d\<lparr>levels := level2 # levels d\<rparr>;
                        w1 = w\<lparr>atomStore := h2\<rparr>
                    in case Config_arraySize d1 w1 of
                         Inl e \<Rightarrow> Inl e
                       | Inr sz \<Rightarrow> Inr (sz, d1, w1)))"

definition Config_endArray :: "ConfigPrivate \<Rightarrow> error + ConfigPrivate" where
  "Config_endArray d =
     (if \<not> length (levels d) > 1 then Inl AssertFailed
      else
        let d1 = (if arrayElement (current d) then d\<lparr>levels := tl (levels d)\<rparr> else d)
        in if \<not> length (levels d1) > 1 then Inl AssertFailed
           else if \<not> \<not> arrayElement (current d1) then Inl AssertFailed
           else Inr (d1\<lparr>levels := tl (levels d1)\<rparr>))"

definition Config_setArrayIndex ::
  "int \<Rightarrow> ConfigPrivate \<Rightarrow> world \<Rightarrow> error + (ConfigPrivate \<times> world)" where
  "Config_setArrayIndex index d w =
     (if levels d = [] then Inl AssertFailed
      else
        let d1 = (if arrayElement (current d) then d\<lparr>levels := tl (levels d)\<rparr> else d)
        in if levels d1 = [] then Inl AssertFailed
           else
             let level = current d1
             in if atoms level = [] then Inl AssertFailed
                else if \<not> isList (atomStore w ! hd (atoms level)) then Inl AssertFailed
                else case level_child_index index level (atomStore w) of
                       Inl e \<Rightarrow> Inl e
                     | Inr (level1, h1) \<Rightarrow>
                         (case level_convert Map level1 h1 of
                            Inl e \<Rightarrow> Inl e
                          | Inr (level2, h2) \<Rightarrow>
                              Inr (d1\<lparr>levels := level2\<lparr>arrayElement := True\<rparr> # levels d1\<rparr>,
                                   w\<lparr>atomStore := h2\<rparr>)))"

text \<open>\<^verbatim>\<open>Config::remove(int)\<close> leaves an array element first.\<close>

definition Config_remove_index ::
  "int \<Rightarrow> ConfigPrivate \<Rightarrow> world \<Rightarrow> error + (ConfigPrivate \<times> world)" where
  "Config_remove_index index d w =
     (if levels d = [] then Inl AssertFailed
      else
        let d1 = (if arrayElement (current d) then d\<lparr>levels := tl (levels d)\<rparr> else d)
        in if levels d1 = [] then Inl AssertFailed
           else case atoms (current d1) of
                  [] \<Rightarrow> Inl NullPointer
                | atom # _ \<Rightarrow>
                    (case remove_index index atom (atomStore w) of
                       Inl e \<Rightarrow> Inl e
                     | Inr (removed, h1) \<Rightarrow>
                         if removed then
                           (if sources d1 = [] then Inl AssertFailed
                            else Inr (d1, makeDirty (hd (sources d1)) (w\<lparr>atomStore := h1\<rparr>)))
                         else Inr (d1, w\<lparr>atomStore := h1\<rparr>)))"


text \<open>The key of \<^verbatim>\<open>value\<close> and \<^verbatim>\<open>setValue\<close> is split at its last slash: the part
  before it is entered with \<^verbatim>\<open>beginGroup\<close>, the part after it is the name.\<close>

definition enter_key ::
  "string \<Rightarrow> ConfigPrivate \<Rightarrow> world \<Rightarrow> error + (string \<times> ConfigPrivate \<times> world)" where
  "enter_key key d w =
     (let slashIndex = lastIndexOf key (CHR ''/'')
      in if slashIndex \<noteq> -1 then
           (case Config_beginGroup (mid key 0 slashIndex) d w of
              Inl e \<Rightarrow> Inl e
            | Inr (d1, w1) \<Rightarrow> Inr (mid key (slashIndex + 1) (-1), d1, w1))
         else Inr (key, d, w))"

definition leave_key :: "string \<Rightarrow> ConfigPrivate \<Rightarrow> error + ConfigPrivate" where
  "leave_key key d =
     (if lastIndexOf key (CHR ''/'') \<noteq> -1 then Config_endGroup d else Inr d)"


definition Config_setValue ::
  "CryptoService \<Rightarrow> string \<Rightarrow> variant \<Rightarrow> ValueFlags \<Rightarrow> ConfigPrivate \<Rightarrow> world
     \<Rightarrow> error + (ConfigPrivate \<times> world)" where
  "Config_setValue cs key v type d w =
     (if levels d = [] then Inl AssertFailed
      else if atoms (current d) = [] then Inr (d, w)
      else case enter_key key d w of
             Inl e \<Rightarrow> Inl e
           | Inr (name, d1, w1) \<Rightarrow>
               let var = (if type = Crypted then crypt cs v else v)
               in if atoms (current d1) = [] then Inl AssertFailed
                  else
                    let atom = hd (atoms (current d1))
                    in if \<not> (isMap (atomStore w1 ! atom) \<and> \<not> isReadOnly (atomStore w1 ! atom))
                       then Inl AssertFailed
                       else
                         let (n, h2) = fromVariant var False (atomStore w1)
                         in case replace name n atom h2 of
                              Inl e \<Rightarrow> Inl e
                            | Inr (changed, h3) \<Rightarrow>
                                let w2 = w1\<lparr>atomStore := h3\<rparr>;
                                    w3 = (if changed \<and> sources d1 \<noteq> []
                                          then makeDirty (hd (sources d1)) w2 else w2)
                                in case leave_key key d1 of
                                     Inl e \<Rightarrow> Inl e
                                   | Inr d2 \<Rightarrow> Inr (d2, w3))"

definition Config_sync :: "ConfigPrivate \<Rightarrow> world \<Rightarrow> world" where
  "Config_sync d w = ConfigPrivate_sync d w"

subsection \<open>Runs of cursor operations, and the states of the examples\<close>

text \<open>A run of \<^verbatim>\<open>setValue\<close> and \<^verbatim>\<open>sync\<close> calls, each on a cursor of its own, with no
  event dispatched in between. A failed assertion ends the run.\<close>

datatype action =
    SetValue ConfigPrivate string variant ValueFlags
  | Sync ConfigPrivate

fun run :: "CryptoService \<Rightarrow> action list \<Rightarrow> world \<Rightarrow> error + world" where
  "run cs [] w = Inr w"
| "run cs (SetValue d key v type # acts) w =
     (case Config_setValue cs key v type d w of
        Inl e \<Rightarrow> Inl e
      | Inr (d1, w1) \<Rightarrow> run cs acts w1)"
| "run cs (Sync d # acts) w = run cs acts (Config_sync d w)"

text \<open>The examples use a file system with no file, an empty cache, the identity as
  cipher, and sources and cursors built by the following functions.\<close>

definition ex_fs :: FileSystem where
  "ex_fs = \<lparr>file_exists = (\<lambda>_. False), file_isWritable = (\<lambda>_. False),
            file_lastModified = (\<lambda>_. None), dir_exists = (\<lambda>_. True)\<rparr>"

definition ex_hash :: ConfigSourceHash where
  "ex_hash = \<lparr>m_hash = Map.empty, m_timers = Map.empty, next_timerId = 1\<rparr>"

definition ex_cs :: CryptoService where
  "ex_cs = \<lparr>crypt = (\<lambda>v. v), decrypt = (\<lambda>v. v)\<rparr>"

definition ex_source :: "string \<Rightarrow> nat \<Rightarrow> bool \<Rightarrow> ConfigSource" where
  "ex_source fname root isDirty =
     \<lparr>fileName = fname, backend = None, dirty = isDirty, isAtLoop = False,
      data = Some root, lastModified = None\<rparr>"

definition ex_world :: "heap \<Rightarrow> ConfigSource list \<Rightarrow> world" where
  "ex_world h srcs =
     \<lparr>atomStore = h, sourceStore = srcs, sourceHash = ex_hash, postedEvents = [],
      fileSystem = ex_fs\<rparr>"

definition ex_cursor :: "nat list \<Rightarrow> nat list \<Rightarrow> ConfigPrivate" where
  "ex_cursor as srcs =
     \<lparr>levels = [\<lparr>atoms = as, arrayElement = False\<rparr>], sources = srcs, memoryGuard = None\<rparr>"

text \<open>
  The store of the layering example: the writable root \<open>0\<close> of the user's document
  \<^verbatim>\<open>{k: "user"}\<close> and the read-only root \<open>1\<close> of the system's document
  \<^verbatim>\<open>{k: "sys", only: 1}\<close>, and a cursor whose level layers the two.
\<close>

definition ex_heap :: heap where
  "ex_heap =
     [\<lparr>m_data = PMap [(''k'', 2)], m_readOnly = False\<rparr>,
      \<lparr>m_data = PMap [(''k'', 3), (''only'', 4)], m_readOnly = True\<rparr>,
      \<lparr>m_data = PValue (VScalar (SString ''user'')), m_readOnly = False\<rparr>,
      \<lparr>m_data = PValue (VScalar (SString ''sys'')), m_readOnly = True\<rparr>,
      \<lparr>m_data = PValue (VScalar (SInt 1)), m_readOnly = True\<rparr>]"

definition ex_d :: ConfigPrivate where
  "ex_d = ex_cursor [0, 1] [0, 1]"

definition ex_w :: world where
  "ex_w = ex_world ex_heap [ex_source ''u.json'' 0 False, ex_source ''/sys/s.json'' 1 False]"

text \<open>The same example with both sources dirty.\<close>

definition ex_w2 :: world where
  "ex_w2 = ex_world ex_heap [ex_source ''u.json'' 0 True, ex_source ''/sys/s.json'' 1 True]"

text \<open>The number of posted events of a source, minus one when its queued bit is set.\<close>

definition balance :: "world \<Rightarrow> nat \<Rightarrow> int" where
  "balance w s =
     int (count_list (postedEvents w) s) - (if isAtLoop (sourceStore w ! s) then 1 else 0)"

text \<open>A backend that loads the invalid variant, and path functions for the examples.\<close>

definition ex_backend :: ConfigBackend where
  "ex_backend = \<lparr>backend_name = ''json'', load = (\<lambda>f fs. Invalid), save = (\<lambda>f v fs. fs)\<rparr>"

definition ex_env :: Env where
  "ex_env =
     \<lparr>isAbsolute = (\<lambda>p. take 1 p = ''/''),
      getDir_filePath = (\<lambda>t f. (case t of ConfigDir \<Rightarrow> ''/home/u/'' | SystemConfigDir \<Rightarrow> ''/sys/'') @ f),
      cleanPath = (\<lambda>p. p),
      suffix = (\<lambda>p. if lastIndexOf p (CHR ''.'') = -1 then [] else mid p (lastIndexOf p (CHR ''.'') + 1) (-1)),
      toLower = (\<lambda>p. p),
      absoluteDir = (\<lambda>p. ''/home/u''),
      all_config_backends = [ex_backend]\<rparr>"

text \<open>A cache with a stale entry: source \<open>0\<close> was loaded from \<^verbatim>\<open>/home/u/t.json\<close> when the
  file had the modification time \<open>5\<close>; the file has been deleted since.\<close>

definition ex_w_stale :: world where
  "ex_w_stale =
     \<lparr>atomStore = [\<lparr>m_data = PMap [], m_readOnly = False\<rparr>],
      sourceStore = [\<lparr>fileName = ''/home/u/t.json'', backend = Some ex_backend, dirty = False,
                      isAtLoop = False, data = Some 0, lastModified = Some 5\<rparr>],
      sourceHash = \<lparr>m_hash = [''/home/u/t.json'' \<mapsto> \<lparr>timer = \<lparr>timerId = 1, msec = 300\<rparr>, config = Some 0\<rparr>],
                    m_timers = [1 \<mapsto> ''/home/u/t.json''], next_timerId = 2\<rparr>,
      postedEvents = [],
      fileSystem = ex_fs\<rparr>"

text \<open>No source yet; every file exists and none is writable.\<close>

definition ex_w_ro :: world where
  "ex_w_ro = (ex_world [] [])\<lparr>fileSystem :=
       \<lparr>file_exists = (\<lambda>_. True), file_isWritable = (\<lambda>_. False),
        file_lastModified = (\<lambda>_. Some 7), dir_exists = (\<lambda>_. True)\<rparr>\<rparr>"

subsection \<open>The store as a forest, and what a read finds\<close>

text \<open>
  Every operation links a child that was created after its parent, and never an address
  outside the store: in a store the program can reach, each child's address is larger
  than its parent's and inside the store (\<open>wf_heap\<close>). \<open>reach h p\<close> lists the atoms
  of the tree under \<open>p\<close>, the atoms \<^verbatim>\<open>toVariant\<close> visits.
\<close>

fun children :: "payload \<Rightarrow> nat list" where
  "children (PMap m) = map snd m"
| "children (PList l) = l"
| "children _ = []"

definition wf_heap :: "heap \<Rightarrow> bool" where
  "wf_heap h =
     list_all (\<lambda>p. list_all (\<lambda>c. p < c \<and> c < length h) (children (m_data (h ! p))))
       [0..<length h]"

function reach :: "heap \<Rightarrow> nat \<Rightarrow> nat list" where
  "reach h p =
     (if p < length h then
        p # concat (map (\<lambda>c. if p < c then reach h c else []) (children (m_data (h ! p))))
      else [])"
  by pat_completeness auto
termination
  by (relation "measure (\<lambda>(h, p). length h - p)") auto

declare reach.simps [simp del]







subsection \<open>Tree values as a QMap yields them\<close>





section \<open>Properties\<close>

subsection \<open>Maps and atoms\<close>

lemmas ex_defs = ex_heap_def ex_d_def ex_w_def ex_world_def ex_cursor_def ex_source_def
  ex_cs_def ex_hash_def ex_fs_def

lemmas atom_defs = isMap_def isList_def isNull_def isValue_def isReadOnly_def m_type_def
  atom_map_def atom_list_def set_data_def Ptr_create_def ensureMap_def ensureList_def
  ensureValue_def

lemma qmap_remove_count: "fst (qmap_remove k m) > 0 \<longleftrightarrow> map_of m k \<noteq> None"
  by (induction m) (auto simp: qmap_remove_def)

lemma qmap_remove_absent: "map_of m k = None \<Longrightarrow> snd (qmap_remove k m) = m"
  by (induction m) (auto simp: qmap_remove_def)

lemma isMap_data: "isMap a \<Longrightarrow> PMap (map_of_payload (m_data a)) = m_data a"
  by (cases "m_data a") (auto simp: isMap_def m_type_def)

lemma set_data_same: "set_data p (m_data (h ! p)) h = h"
  by (simp add: set_data_def)

lemma remove_name_eq:
  "remove_name name atom h =
     (if \<not> isMap (h ! atom) then Inl AssertFailed
      else if map_of (atom_map h atom) name = None then Inr (False, h)
      else Inr (True, set_data atom (PMap (filter (\<lambda>e. fst e \<noteq> name) (atom_map h atom))) h))"
proof -
  have absent: "isMap (h ! atom) \<Longrightarrow> map_of (atom_map h atom) name = None \<Longrightarrow>
      remove_name name atom h = Inr (False, h)"
    using qmap_remove_count[of name "atom_map h atom"]
      qmap_remove_absent[of "atom_map h atom" name]
    by (simp add: remove_name_def split_beta atom_map_def isMap_data set_data_same)
  have present: "isMap (h ! atom) \<Longrightarrow> map_of (atom_map h atom) name \<noteq> None \<Longrightarrow>
      remove_name name atom h =
        Inr (True, set_data atom (PMap (filter (\<lambda>e. fst e \<noteq> name) (atom_map h atom))) h)"
    using qmap_remove_count[of name "atom_map h atom"]
    by (simp add: remove_name_def split_beta) (simp add: qmap_remove_def)
  show ?thesis
    using absent present by (simp add: remove_name_def)
qed

subsection \<open>The frames of endArray\<close>

text \<open>
  Claim C8. \<^verbatim>\<open>endArray\<close> asserts that the current frame is not the root frame; when the
  current frame is an array element it pops it, and then asserts that the frame now on
  top is neither the root frame nor an array element, and pops it, the list frame. So
  it ends with one frame popped (the top was no array element) or two (the top was an
  array element over a frame that is none), fails in every other case, and never pops
  the root frame: where it succeeds, the root frame is the same and still there.
\<close>

theorem endArray_frame_discipline:
  "Config_endArray d =
     (if length (levels d) \<le> 1 then Inl AssertFailed
      else if arrayElement (hd (levels d)) then
        (if length (levels d) \<le> 2 then Inl AssertFailed
         else if arrayElement (levels d ! 1) then Inl AssertFailed
         else Inr (d\<lparr>levels := drop 2 (levels d)\<rparr>))
      else Inr (d\<lparr>levels := tl (levels d)\<rparr>))
   \<and> (case Config_endArray d of
         Inl e \<Rightarrow> True
       | Inr d1 \<Rightarrow> levels d1 \<noteq> [] \<and> last (levels d1) = last (levels d))"
proof (cases "levels d")
  case Nil
  then show ?thesis
    by (simp add: Config_endArray_def)
next
  case (Cons l ls)
  note top = Cons
  show ?thesis
  proof (cases ls)
    case Nil
    with top show ?thesis
      by (simp add: Config_endArray_def current_def)
  next
    case (Cons l2 ls2)
    with top show ?thesis
      by (cases ls2) (auto simp: Config_endArray_def current_def Let_def)
  qed
qed

text \<open>After \<^verbatim>\<open>beginArray\<close>, with or without a \<^verbatim>\<open>setArrayIndex\<close>, \<^verbatim>\<open>endArray\<close> succeeds
  and gives back the frames the cursor had before.\<close>

lemma level_map_arrayElement:
  "level_map callback level h = Inr (level1, h1) \<Longrightarrow> \<not> arrayElement level1"
  by (auto simp: level_map_def split: sum.splits)

lemma level_convert_arrayElement:
  "level_convert type level h = Inr (level1, h1) \<Longrightarrow> \<not> arrayElement level1"
  unfolding level_convert_def by (rule level_map_arrayElement)

lemma beginArray_levels:
  assumes "Config_beginArray name d w = Inr (n, d1, w1)"
  shows "d1 = d\<lparr>levels := hd (levels d1) # levels d\<rparr> \<and> \<not> arrayElement (hd (levels d1))
         \<and> levels d \<noteq> []"
  using assms
  by (auto simp: Config_beginArray_def Let_def split: if_splits sum.splits
           dest!: level_convert_arrayElement)

lemma beginArray_endArray:
  assumes "Config_beginArray name d w = Inr (n, d1, w1)"
  shows "Config_endArray d1 = Inr d"
proof -
  define level2 where "level2 = hd (levels d1)"
  from beginArray_levels[OF assms] have d1: "d1 = d\<lparr>levels := level2 # levels d\<rparr>"
    and l2: "\<not> arrayElement level2" and ne: "levels d \<noteq> []"
    by (simp_all add: level2_def)
  then show ?thesis
    by (cases "levels d") (simp_all add: Config_endArray_def current_def)
qed

lemma beginArray_setArrayIndex_endArray:
  assumes "Config_beginArray name d w = Inr (n, d1, w1)"
    and "Config_setArrayIndex index d1 w1 = Inr (d2, w2)"
  shows "Config_endArray d2 = Inr d"
proof -
  define level2 where "level2 = hd (levels d1)"
  from beginArray_levels[OF assms(1)] have d1: "d1 = d\<lparr>levels := level2 # levels d\<rparr>"
    and l2: "\<not> arrayElement level2" and ne: "levels d \<noteq> []"
    by (simp_all add: level2_def)
  from assms(2) d1 l2 obtain level3 where "d2 = d1\<lparr>levels := level3\<lparr>arrayElement := True\<rparr> # levels d1\<rparr>"
    by (auto simp: Config_setArrayIndex_def current_def Let_def split: if_splits sum.splits)
  with d1 l2 ne show ?thesis
    by (cases "levels d") (simp_all add: Config_endArray_def current_def)
qed

subsection \<open>The preconditions of remove\<close>

lemma Config_remove_eq:
  "Config_remove name d w =
     (if levels d = [] then Inl AssertFailed
      else case atoms (current d) of
             [] \<Rightarrow> Inl NullPointer
           | atom # _ \<Rightarrow>
               if \<not> isMap (atomStore w ! atom) then Inl AssertFailed
               else if map_of (atom_map (atomStore w) atom) name = None then Inr (d, w)
               else if sources d = [] then Inl AssertFailed
               else Inr (d, makeDirty (hd (sources d))
                          (w\<lparr>atomStore := set_data atom
                             (PMap (filter (\<lambda>e. fst e \<noteq> name) (atom_map (atomStore w) atom)))
                             (atomStore w)\<rparr>)))"
  by (cases "atoms (current d)") (auto simp: Config_remove_def remove_name_eq)

lemma Config_remove_index_eq:
  "Config_remove_index index d w =
     (if levels d = [] then Inl AssertFailed
      else
        let d1 = (if arrayElement (current d) then d\<lparr>levels := tl (levels d)\<rparr> else d)
        in if levels d1 = [] then Inl AssertFailed
           else case atoms (current d1) of
                  [] \<Rightarrow> Inl NullPointer
                | atom # _ \<Rightarrow>
                    if \<not> isList (atomStore w ! atom) then Inl AssertFailed
                    else if int (length (atom_list (atomStore w) atom)) \<le> index then Inr (d1, w)
                    else if index < 0 then Inl AssertFailed
                    else if sources d = [] then Inl AssertFailed
                    else Inr (d1, makeDirty (hd (sources d))
                          (w\<lparr>atomStore := set_data atom
                             (PList (take (nat index) (atom_list (atomStore w) atom)
                                     @ drop (Suc (nat index)) (atom_list (atomStore w) atom)))
                             (atomStore w)\<rparr>)))"
  by (cases "atoms (current (if arrayElement (current d) then d\<lparr>levels := tl (levels d)\<rparr> else d))")
     (auto simp: Config_remove_index_def remove_index_def Let_def)

lemma makeDirty_effect:
  "s < length (sourceStore w) \<Longrightarrow>
     dirty (sourceStore (makeDirty s w) ! s)
     \<and> (\<forall>t. t \<noteq> s \<longrightarrow> sourceStore (makeDirty s w) ! t = sourceStore w ! t)"
  by (simp add: makeDirty_def)

text \<open>
  Claim C10. \<^verbatim>\<open>Config::remove(key)\<close> and \<^verbatim>\<open>Config::remove(index)\<close> need an atom in the
  level they act on (the current one; for an index the one under an array element):
  with none they dereference a null pointer. On a map (a list) atom, a removal that
  fails, the key missing or the index at or past the end, leaves the whole state as it
  is, so no dirty bit changes; a removal that succeeds needs a source in the cursor's
  list (\<^verbatim>\<open>sources.first()\<close> asserts it), and then the first source is dirty afterwards
  and every other source is as before.
\<close>

theorem remove_preconditions:
  assumes "levels d \<noteq> []"
    and "d1 = (if arrayElement (current d) then d\<lparr>levels := tl (levels d)\<rparr> else d)"
    and "levels d1 \<noteq> []"
  shows
    "(atoms (current d) = [] \<longrightarrow> Config_remove name d w = Inl NullPointer)
   \<and> (atoms (current d1) = [] \<longrightarrow> Config_remove_index index d w = Inl NullPointer)
   \<and> (\<forall>atom rest. atoms (current d) = atom # rest \<and> isMap (atomStore w ! atom) \<longrightarrow>
        (if map_of (atom_map (atomStore w) atom) name = None
         then Config_remove name d w = Inr (d, w)
         else if sources d = [] then Config_remove name d w = Inl AssertFailed
         else \<exists>w1. Config_remove name d w = Inr (d, w1)
                \<and> (hd (sources d) < length (sourceStore w) \<longrightarrow> dirty (sourceStore w1 ! hd (sources d)))
                \<and> (\<forall>t. t \<noteq> hd (sources d) \<longrightarrow> sourceStore w1 ! t = sourceStore w ! t)))
   \<and> (\<forall>atom rest. atoms (current d1) = atom # rest \<and> isList (atomStore w ! atom) \<and> 0 \<le> index \<longrightarrow>
        (if int (length (atom_list (atomStore w) atom)) \<le> index
         then Config_remove_index index d w = Inr (d1, w)
         else if sources d = [] then Config_remove_index index d w = Inl AssertFailed
         else \<exists>w1. Config_remove_index index d w = Inr (d1, w1)
                \<and> (hd (sources d) < length (sourceStore w) \<longrightarrow> dirty (sourceStore w1 ! hd (sources d)))
                \<and> (\<forall>t. t \<noteq> hd (sources d) \<longrightarrow> sourceStore w1 ! t = sourceStore w ! t)))"
proof -
  have md: "(hd (sources d) < length (sourceStore w) \<longrightarrow>
               dirty (sourceStore (makeDirty (hd (sources d)) (w\<lparr>atomStore := h1\<rparr>)) ! hd (sources d)))
         \<and> (\<forall>t. t \<noteq> hd (sources d) \<longrightarrow>
               sourceStore (makeDirty (hd (sources d)) (w\<lparr>atomStore := h1\<rparr>)) ! t = sourceStore w ! t)" for h1
    using makeDirty_effect[of "hd (sources d)" "w\<lparr>atomStore := h1\<rparr>"] by (simp add: makeDirty_def)
  have a: "atoms (current d) = [] \<longrightarrow> Config_remove name d w = Inl NullPointer"
    using assms(1) by (simp add: Config_remove_eq)
  have b: "atoms (current d1) = [] \<longrightarrow> Config_remove_index index d w = Inl NullPointer"
    using assms by (simp add: Config_remove_index_eq Let_def)
  have c: "\<forall>atom rest. atoms (current d) = atom # rest \<and> isMap (atomStore w ! atom) \<longrightarrow>
        (if map_of (atom_map (atomStore w) atom) name = None
         then Config_remove name d w = Inr (d, w)
         else if sources d = [] then Config_remove name d w = Inl AssertFailed
         else \<exists>w1. Config_remove name d w = Inr (d, w1)
                \<and> (hd (sources d) < length (sourceStore w) \<longrightarrow> dirty (sourceStore w1 ! hd (sources d)))
                \<and> (\<forall>t. t \<noteq> hd (sources d) \<longrightarrow> sourceStore w1 ! t = sourceStore w ! t))"
    using assms(1) md by (auto simp: Config_remove_eq)
  have e: "\<forall>atom rest. atoms (current d1) = atom # rest \<and> isList (atomStore w ! atom) \<and> 0 \<le> index \<longrightarrow>
        (if int (length (atom_list (atomStore w) atom)) \<le> index
         then Config_remove_index index d w = Inr (d1, w)
         else if sources d = [] then Config_remove_index index d w = Inl AssertFailed
         else \<exists>w1. Config_remove_index index d w = Inr (d1, w1)
                \<and> (hd (sources d) < length (sourceStore w) \<longrightarrow> dirty (sourceStore w1 ! hd (sources d)))
                \<and> (\<forall>t. t \<noteq> hd (sources d) \<longrightarrow> sourceStore w1 ! t = sourceStore w ! t))"
    using assms md by (auto simp: Config_remove_index_eq Let_def)
  from a b c e show ?thesis by blast
qed

text \<open>In the layering example, removing the key \<open>k\<close> succeeds and leaves the user's
  source dirty; removing a key that is not there changes nothing; with no atom in the
  level the removal is a null dereference.\<close>

theorem remove_preconditions_witness:
  "levels ex_d \<noteq> []
   \<and> atoms (current ex_d) = [0, 1] \<and> isMap (atomStore ex_w ! 0)
   \<and> map_of (atom_map (atomStore ex_w) 0) ''k'' \<noteq> None
   \<and> hd (sources ex_d) < length (sourceStore ex_w)
   \<and> (\<exists>w1. Config_remove ''k'' ex_d ex_w = Inr (ex_d, w1) \<and> dirty (sourceStore w1 ! 0)
            \<and> sourceStore w1 ! 1 = sourceStore ex_w ! 1)
   \<and> Config_remove ''zz'' ex_d ex_w = Inr (ex_d, ex_w)
   \<and> Config_remove ''k'' (ex_cursor [] [0]) ex_w = Inl NullPointer"
proof -
  have pre: "levels ex_d \<noteq> []"
    "ex_d = (if arrayElement (current ex_d) then ex_d\<lparr>levels := tl (levels ex_d)\<rparr> else ex_d)"
    by (simp_all add: ex_defs current_def)
  have facts: "atoms (current ex_d) = [0, 1]" "isMap (atomStore ex_w ! 0)"
    "map_of (atom_map (atomStore ex_w) 0) ''k'' \<noteq> None"
    "map_of (atom_map (atomStore ex_w) 0) ''zz'' = None"
    "sources ex_d \<noteq> []" "hd (sources ex_d) = 0" "0 < length (sourceStore ex_w)"
    by (simp_all add: ex_defs current_def atom_defs)
  have pre2: "levels (ex_cursor [] [0]) \<noteq> []"
    "ex_cursor [] [0] = (if arrayElement (current (ex_cursor [] [0]))
        then (ex_cursor [] [0])\<lparr>levels := tl (levels (ex_cursor [] [0]))\<rparr> else ex_cursor [] [0])"
    "atoms (current (ex_cursor [] [0])) = []"
    by (simp_all add: ex_defs current_def)
  from remove_preconditions[OF pre(1) pre(2) pre(1), of "''k''" ex_w 0] facts
  have k: "\<exists>w1. Config_remove ''k'' ex_d ex_w = Inr (ex_d, w1) \<and> dirty (sourceStore w1 ! 0)
            \<and> sourceStore w1 ! 1 = sourceStore ex_w ! 1"
    by auto
  from remove_preconditions[OF pre(1) pre(2) pre(1), of "''zz''" ex_w 0] facts
  have zz: "Config_remove ''zz'' ex_d ex_w = Inr (ex_d, ex_w)"
    by auto
  from remove_preconditions[OF pre2(1) pre2(2) pre2(1), of "''k''" ex_w 0] pre2(3)
  have e: "Config_remove ''k'' (ex_cursor [] [0]) ex_w = Inl NullPointer"
    by blast
  from pre(1) facts k zz e show ?thesis by simp
qed

subsection \<open>Deferred saving\<close>

lemma sync_posted:
  "postedEvents (ConfigPrivate_sync d w) =
     postedEvents w @
       (if sources d \<noteq> [] \<and> dirty (sourceStore w ! hd (sources d))
           \<and> \<not> isAtLoop (sourceStore w ! hd (sources d))
        then [hd (sources d)] else [])"
  by (cases "sources d") (simp_all add: ConfigPrivate_sync_def)

lemma sync_others:
  "sources d = [] \<or> t \<noteq> hd (sources d) \<Longrightarrow>
     sourceStore (ConfigPrivate_sync d w) ! t = sourceStore w ! t"
  by (cases "sources d") (auto simp: ConfigPrivate_sync_def)

lemma sync_length: "length (sourceStore (ConfigPrivate_sync d w)) = length (sourceStore w)"
  by (cases "sources d") (simp_all add: ConfigPrivate_sync_def)

lemma sync_first:
  "sources d \<noteq> [] \<Longrightarrow> hd (sources d) < length (sourceStore w) \<Longrightarrow>
   dirty (sourceStore w ! hd (sources d)) \<Longrightarrow> \<not> isAtLoop (sourceStore w ! hd (sources d)) \<Longrightarrow>
     isAtLoop (sourceStore (ConfigPrivate_sync d w) ! hd (sources d))
     \<and> \<not> dirty (sourceStore (ConfigPrivate_sync d w) ! hd (sources d))"
  by (cases "sources d") (simp_all add: ConfigPrivate_sync_def)

lemma sync_isAtLoop_mono:
  "isAtLoop (sourceStore w ! s) \<Longrightarrow> isAtLoop (sourceStore (ConfigPrivate_sync d w) ! s)"
  by (cases "sources d"; cases "hd (sources d) < length (sourceStore w)"; cases "s = hd (sources d)")
     (auto simp: ConfigPrivate_sync_def)


lemma sync_balance:
  "s < length (sourceStore w) \<Longrightarrow> balance (ConfigPrivate_sync d w) s = balance w s"
  by (cases "sources d"; cases "s = hd (sources d)")
     (auto simp: ConfigPrivate_sync_def balance_def)

lemma isAtLoop_makeDirty:
  "isAtLoop (sourceStore (makeDirty s w) ! t) = isAtLoop (sourceStore w ! t)"
  by (cases "s < length (sourceStore w)"; cases "t = s") (simp_all add: makeDirty_def list_update_beyond)

lemma makeDirty_fields:
  "postedEvents (makeDirty s w) = postedEvents w"
  "length (sourceStore (makeDirty s w)) = length (sourceStore w)"
  "atomStore (makeDirty s w) = atomStore w"
  "sourceHash (makeDirty s w) = sourceHash w"
  "fileSystem (makeDirty s w) = fileSystem w"
  by (simp_all add: makeDirty_def)

lemma enter_key_world:
  "enter_key key d w = Inr (name, d1, w1) \<Longrightarrow>
     sourceStore w1 = sourceStore w \<and> postedEvents w1 = postedEvents w \<and> sources d1 = sources d"
  by (auto simp: enter_key_def Config_beginGroup_def Let_def split: if_splits sum.splits)

lemma setValue_world:
  assumes "Config_setValue cs key v type d w = Inr (d1, w1)"
  shows "postedEvents w1 = postedEvents w
       \<and> length (sourceStore w1) = length (sourceStore w)
       \<and> (\<forall>t. isAtLoop (sourceStore w1 ! t) = isAtLoop (sourceStore w ! t))"
  using assms
  by (auto simp: Config_setValue_def Let_def isAtLoop_makeDirty makeDirty_fields
        split: if_splits sum.splits prod.splits dest!: enter_key_world)

lemma setValue_balance:
  "Config_setValue cs key v type d w = Inr (d1, w1) \<Longrightarrow> balance w1 s = balance w s"
  by (drule setValue_world) (simp add: balance_def)

lemma run_balance:
  "run cs acts w = Inr w1 \<Longrightarrow> s < length (sourceStore w) \<Longrightarrow>
     balance w1 s = balance w s \<and> length (sourceStore w1) = length (sourceStore w)
     \<and> (isAtLoop (sourceStore w ! s) \<longrightarrow> isAtLoop (sourceStore w1 ! s))"
proof (induction cs acts w rule: run.induct)
  case (1 cs w)
  then show ?case by simp
next
  case (2 cs d key v type acts w)
  from "2.prems"(1) obtain d2 w2 where sv: "Config_setValue cs key v type d w = Inr (d2, w2)"
    and r: "run cs acts w2 = Inr w1"
    by (auto split: sum.splits)
  from setValue_world[OF sv] "2.prems"(2) have len: "s < length (sourceStore w2)" by simp
  from "2.IH"[OF sv refl r len] setValue_world[OF sv] setValue_balance[OF sv, of s]
  show ?case by simp
next
  case (3 cs d acts w)
  from "3.prems" have r: "run cs acts (Config_sync d w) = Inr w1" by simp
  have len: "s < length (sourceStore (Config_sync d w))"
    using "3.prems"(2) by (simp add: Config_sync_def sync_length)
  from "3.IH"[OF r len] sync_balance[OF "3.prems"(2), of d] sync_isAtLoop_mono[of w s d]
  show ?case by (simp add: Config_sync_def sync_length)
qed

lemma event_clears:
  "PostConfigSaver_event s w = Inr w1 \<Longrightarrow> s < length (sourceStore w) \<Longrightarrow>
     \<not> isAtLoop (sourceStore w1 ! s) \<and> \<not> dirty (sourceStore w1 ! s)"
  by (auto simp: PostConfigSaver_event_def ConfigSource_sync_def Let_def split: sum.splits option.splits)

text \<open>
  Claim C6 (as amended). The body of the destructor runs \<^verbatim>\<open>sync()\<close> when the
  memory-guard is null and does nothing when it is set. \<^verbatim>\<open>sync()\<close> looks at the first
  source of the cursor's list only: it posts one save event for it, sets its queued bit
  and clears its dirty bit, when that source is dirty and not queued; every other source
  of the list stays as it is, dirty or not.
\<close>

theorem destroy_syncs_first_source:
  "postedEvents (ConfigPrivate_destroy d w) =
     postedEvents w @
       (if memoryGuard d = None \<and> sources d \<noteq> [] \<and> dirty (sourceStore w ! hd (sources d))
           \<and> \<not> isAtLoop (sourceStore w ! hd (sources d))
        then [hd (sources d)] else [])
   \<and> (memoryGuard d \<noteq> None \<longrightarrow> ConfigPrivate_destroy d w = w)
   \<and> (\<forall>t. sources d = [] \<or> t \<noteq> hd (sources d) \<longrightarrow>
          sourceStore (ConfigPrivate_destroy d w) ! t = sourceStore w ! t)
   \<and> (memoryGuard d = None \<and> sources d \<noteq> [] \<and> hd (sources d) < length (sourceStore w)
        \<and> dirty (sourceStore w ! hd (sources d)) \<and> \<not> isAtLoop (sourceStore w ! hd (sources d)) \<longrightarrow>
          isAtLoop (sourceStore (ConfigPrivate_destroy d w) ! hd (sources d))
          \<and> \<not> dirty (sourceStore (ConfigPrivate_destroy d w) ! hd (sources d)))"
  using sync_posted[of d w] sync_others[of d _ w] sync_first[of d w]
  by (simp add: ConfigPrivate_destroy_def)

text \<open>With both sources of the example dirty, the destructor of the cursor posts
  the event of the first one only; a cursor with a memory-guard posts nothing.\<close>

theorem destroy_syncs_first_source_witness:
  "memoryGuard ex_d = None \<and> sources ex_d = [0, 1] \<and> 0 < length (sourceStore ex_w2)
   \<and> dirty (sourceStore ex_w2 ! 0) \<and> \<not> isAtLoop (sourceStore ex_w2 ! 0)
   \<and> postedEvents (ConfigPrivate_destroy ex_d ex_w2) = [0]
   \<and> isAtLoop (sourceStore (ConfigPrivate_destroy ex_d ex_w2) ! 0)
   \<and> sourceStore (ConfigPrivate_destroy ex_d ex_w2) ! 1 = sourceStore ex_w2 ! 1
   \<and> ConfigPrivate_destroy (ex_d\<lparr>memoryGuard := Some 0\<rparr>) ex_w2 = ex_w2"
proof -
  have facts: "memoryGuard ex_d = None" "sources ex_d = [0, 1]" "0 < length (sourceStore ex_w2)"
    "dirty (sourceStore ex_w2 ! 0)" "\<not> isAtLoop (sourceStore ex_w2 ! 0)" "postedEvents ex_w2 = []"
    "memoryGuard (ex_d\<lparr>memoryGuard := Some 0\<rparr>) \<noteq> None"
    by (simp_all add: ex_defs ex_w2_def)
  from destroy_syncs_first_source[of ex_d ex_w2] facts
  have a: "postedEvents (ConfigPrivate_destroy ex_d ex_w2) = [0]"
    "isAtLoop (sourceStore (ConfigPrivate_destroy ex_d ex_w2) ! 0)"
    "sourceStore (ConfigPrivate_destroy ex_d ex_w2) ! 1 = sourceStore ex_w2 ! 1"
    by simp_all
  from destroy_syncs_first_source[of "ex_d\<lparr>memoryGuard := Some 0\<rparr>" ex_w2] facts(7)
  have b: "ConfigPrivate_destroy (ex_d\<lparr>memoryGuard := Some 0\<rparr>) ex_w2 = ex_w2"
    by blast
  from facts a b show ?thesis by simp
qed

text \<open>
  Claim C6 as stated fails: the second source of the list is dirty and not queued, the
  cursor has no memory-guard, and its destructor posts no event for that source and
  leaves its queued bit clear.
\<close>

theorem destroy_second_source_counterexample:
  "memoryGuard ex_d = None \<and> sources ex_d = [0, 1]
   \<and> dirty (sourceStore ex_w2 ! 1) \<and> \<not> isAtLoop (sourceStore ex_w2 ! 1)
   \<and> count_list (postedEvents (ConfigPrivate_destroy ex_d ex_w2)) 1 = 0
   \<and> \<not> isAtLoop (sourceStore (ConfigPrivate_destroy ex_d ex_w2) ! 1)
   \<and> dirty (sourceStore (ConfigPrivate_destroy ex_d ex_w2) ! 1)"
  by (simp add: ex_defs ex_w2_def ConfigPrivate_destroy_def ConfigPrivate_sync_def)

text \<open>
  Claim C5. \<^verbatim>\<open>sync\<close> posts an event exactly when the cursor has a source and its first
  source is dirty and not queued, and then sets the queued bit. In a run of
  \<^verbatim>\<open>setValue\<close> and \<^verbatim>\<open>sync\<close> calls on any cursors, with no event dispatched in between,
  the number of posted events of a source minus its queued bit does not change and the
  bit is never cleared: at most one event is posted for the source, none when it was
  queued already. The saver's \<^verbatim>\<open>event\<close> clears the bit, after \<^verbatim>\<open>ConfigSource::sync\<close>.
\<close>

theorem save_coalescing:
  assumes "s < length (sourceStore w)"
  shows
    "(case run cs acts w of
        Inl e \<Rightarrow> True
      | Inr w1 \<Rightarrow>
          count_list (postedEvents w) s \<le> count_list (postedEvents w1) s
          \<and> count_list (postedEvents w1) s \<le> count_list (postedEvents w) s + 1
          \<and> (isAtLoop (sourceStore w ! s) \<longrightarrow>
                isAtLoop (sourceStore w1 ! s)
                \<and> count_list (postedEvents w1) s = count_list (postedEvents w) s)
          \<and> (count_list (postedEvents w1) s = count_list (postedEvents w) s + 1 \<longrightarrow>
                isAtLoop (sourceStore w1 ! s)))
   \<and> postedEvents (Config_sync d w) =
       postedEvents w @
         (if sources d \<noteq> [] \<and> dirty (sourceStore w ! hd (sources d))
             \<and> \<not> isAtLoop (sourceStore w ! hd (sources d))
          then [hd (sources d)] else [])
   \<and> (sources d \<noteq> [] \<and> hd (sources d) = s \<and> dirty (sourceStore w ! s)
        \<and> \<not> isAtLoop (sourceStore w ! s) \<longrightarrow> isAtLoop (sourceStore (Config_sync d w) ! s))
   \<and> (case PostConfigSaver_event s w of
         Inl e \<Rightarrow> True
       | Inr w1 \<Rightarrow> \<not> isAtLoop (sourceStore w1 ! s) \<and> \<not> dirty (sourceStore w1 ! s))"
proof -
  have r: "case run cs acts w of
        Inl e \<Rightarrow> True
      | Inr w1 \<Rightarrow>
          count_list (postedEvents w) s \<le> count_list (postedEvents w1) s
          \<and> count_list (postedEvents w1) s \<le> count_list (postedEvents w) s + 1
          \<and> (isAtLoop (sourceStore w ! s) \<longrightarrow>
                isAtLoop (sourceStore w1 ! s)
                \<and> count_list (postedEvents w1) s = count_list (postedEvents w) s)
          \<and> (count_list (postedEvents w1) s = count_list (postedEvents w) s + 1 \<longrightarrow>
                isAtLoop (sourceStore w1 ! s))"
  proof (cases "run cs acts w")
    case (Inl e)
    then show ?thesis by simp
  next
    case (Inr w1)
    from run_balance[OF Inr assms] show ?thesis
      unfolding Inr by (auto simp: balance_def split: if_splits)
  qed
  have e: "case PostConfigSaver_event s w of
         Inl e \<Rightarrow> True
       | Inr w1 \<Rightarrow> \<not> isAtLoop (sourceStore w1 ! s) \<and> \<not> dirty (sourceStore w1 ! s)"
    using event_clears[OF _ assms] by (cases "PostConfigSaver_event s w") simp_all
  have f: "sources d \<noteq> [] \<and> hd (sources d) = s \<and> dirty (sourceStore w ! s)
        \<and> \<not> isAtLoop (sourceStore w ! s) \<longrightarrow> isAtLoop (sourceStore (Config_sync d w) ! s)"
    using sync_first[of d w] assms by (auto simp: Config_sync_def)
  from r e f sync_posted[of d w] show ?thesis
    by (simp add: Config_sync_def)
qed

theorem save_coalescing_witness:
  "0 < length (sourceStore ex_w)
   \<and> (case run ex_cs
             [SetValue ex_d ''k'' (VScalar (SString ''me'')) Normal,
              SetValue ex_d ''n'' (VScalar (SInt 2)) Normal,
              Sync ex_d,
              SetValue ex_d ''n'' (VScalar (SInt 3)) Normal,
              Sync ex_d] ex_w of
         Inl e \<Rightarrow> False
       | Inr w1 \<Rightarrow> count_list (postedEvents w1) 0 \<le> 1 \<and> postedEvents w1 = [0]
                   \<and> isAtLoop (sourceStore w1 ! 0) \<and> dirty (sourceStore w1 ! 0))"
  using save_coalescing[of 0 ex_w ex_cs
             "[SetValue ex_d ''k'' (VScalar (SString ''me'')) Normal,
              SetValue ex_d ''n'' (VScalar (SInt 2)) Normal,
              Sync ex_d,
              SetValue ex_d ''n'' (VScalar (SInt 3)) Normal,
              Sync ex_d]" ex_d]
  by (simp add: ex_defs Config_setValue_def current_def enter_key_def leave_key_def lastIndexOf_def
       atom_defs toVariant.simps Let_def replace_def makeDirty_def Config_sync_def
       ConfigPrivate_sync_def)

subsection \<open>Opening a source\<close>

lemma hash_value_config:
  "fst (hash_value key sh) = (case m_hash sh key of None \<Rightarrow> None | Some it \<Rightarrow> config it)"
  by (simp add: hash_value_def timer_start_def Let_def split: option.splits)

lemma hash_value_fields: "isValid r (w\<lparr>sourceHash := sh\<rparr>) = isValid r w"
  by (simp add: isValid_def)

lemma open_with_backend:
  assumes "info = (if path = [] then ''profile'' else path)"
    and "fname = cleanPath env (if \<not> isAbsolute env info
                         then getDir_filePath env (if systemDir then SystemConfigDir else ConfigDir) info
                         else info)"
  shows "ConfigSource_open env path systemDir create (Some b) w =
     (if isAbsolute env info \<and> systemDir then (None, w)
      else if (case fst (hash_value fname (sourceHash w)) of None \<Rightarrow> False | Some r \<Rightarrow> isValid r w)
      then (fst (hash_value fname (sourceHash w)), w\<lparr>sourceHash := snd (hash_value fname (sourceHash w))\<rparr>)
      else open_load env systemDir create b fname info (fst (hash_value fname (sourceHash w)))
             (w\<lparr>sourceHash := snd (hash_value fname (sourceHash w))\<rparr>))"
  unfolding assms
  by (simp add: ConfigSource_open_def open_select_backend_def Let_def split_beta hash_value_fields
           cong: option.case_cong)

text \<open>
  Claim C3. The claim does not hold of the code. Where the cache has an entry for the
  canonical name whose source fails \<^verbatim>\<open>isValid()\<close>, the file (as \<^verbatim>\<open>info\<close> names it) does
  not exist and \<^verbatim>\<open>create\<close> is false, \<^verbatim>\<open>open\<close> leaves through \<^verbatim>\<open>return result\<close> and
  gives back the stale source, not a null pointer.
\<close>

theorem open_returns_stale_entry:
  assumes "info = (if path = [] then ''profile'' else path)"
    and "\<not> (isAbsolute env info \<and> systemDir)"
    and "fname = cleanPath env (if \<not> isAbsolute env info
                         then getDir_filePath env (if systemDir then SystemConfigDir else ConfigDir) info
                         else info)"
    and "m_hash (sourceHash w) fname = Some it" and "config it = Some r"
    and "\<not> isValid r w"
    and "\<not> file_exists (fileSystem w) info"
  shows "fst (ConfigSource_open env path systemDir False (Some b) w) = Some r"
proof -
  have hv: "fst (hash_value fname (sourceHash w)) = Some r"
    using assms(4,5) by (simp add: hash_value_config)
  show ?thesis
    unfolding open_with_backend[OF assms(1) assms(3)]
    using assms(2,6,7) by (simp add: hv open_load_def)
qed

theorem open_returns_stale_entry_witness:
  "\<not> file_exists (fileSystem ex_w_stale) ''/home/u/t.json''
   \<and> \<not> isValid 0 ex_w_stale
   \<and> fst (ConfigSource_open ex_env ''/home/u/t.json'' False False (Some ex_backend) ex_w_stale) = Some 0"
proof -
  have h: "\<not> (isAbsolute ex_env ''/home/u/t.json'' \<and> False)"
    "''/home/u/t.json'' = cleanPath ex_env (if \<not> isAbsolute ex_env ''/home/u/t.json''
                         then getDir_filePath ex_env (if False then SystemConfigDir else ConfigDir) ''/home/u/t.json''
                         else ''/home/u/t.json'')"
    "m_hash (sourceHash ex_w_stale) ''/home/u/t.json'' = Some \<lparr>timer = \<lparr>timerId = 1, msec = 300\<rparr>, config = Some 0\<rparr>"
    "config \<lparr>timer = \<lparr>timerId = 1, msec = 300\<rparr>, config = Some 0\<rparr> = Some 0"
    "\<not> isValid 0 ex_w_stale"
    "\<not> file_exists (fileSystem ex_w_stale) ''/home/u/t.json''"
    by (simp_all add: ex_env_def ex_w_stale_def isValid_def ex_fs_def)
  from open_returns_stale_entry[OF _ h(1) h(2) h(3) h(4) h(5) h(6), of "''/home/u/t.json''" ex_backend] h
  show ?thesis by simp
qed

lemma fromVariant_scalar_or_null:
  "v = Invalid \<or> (\<exists>s. v = VScalar s) \<Longrightarrow>
     fst (fromVariant v ro h) = length h \<and> length (snd (fromVariant v ro h)) = Suc (length h)
     \<and> (isValue (snd (fromVariant v ro h) ! length h) \<or> isNull (snd (fromVariant v ro h) ! length h))"
  by (auto simp: atom_defs)

lemma fromVariant_empty_map:
  "fromVariant (VMap []) ro h = (length h, h @ [\<lparr>m_data = PMap [], m_readOnly = ro\<rparr>])"
  by (simp add: atom_defs)

lemma open_read_scalar_root:
  assumes "load b fname (fileSystem w1) = Invalid \<or> (\<exists>s. load b fname (fileSystem w1) = VScalar s)"
    and "readOnly = (\<not> file_isWritable (fileSystem w1) info \<and> (systemDir \<or> file_exists (fileSystem w1) info))"
  shows "(\<exists>w2. open_read systemDir True b fname info w1 = (Some (length (sourceStore w1)), w2)
        \<and> data (sourceStore w2 ! length (sourceStore w1)) = Some (Suc (length (atomStore w1)))
        \<and> atomStore w2 ! Suc (length (atomStore w1)) = \<lparr>m_data = PMap [], m_readOnly = readOnly\<rparr>)
      \<and> fst (open_read systemDir False b fname info w1) = None"
proof -
  define dat where "dat = fst (fromVariant (load b fname (fileSystem w1)) readOnly (atomStore w1))"
  define h1 where "h1 = snd (fromVariant (load b fname (fileSystem w1)) readOnly (atomStore w1))"
  have fv: "fromVariant (load b fname (fileSystem w1)) readOnly (atomStore w1) = (dat, h1)"
    by (simp add: dat_def h1_def)
  from fromVariant_scalar_or_null[OF assms(1), of readOnly "atomStore w1"]
  have dat: "dat = length (atomStore w1)" and len: "length h1 = Suc (length (atomStore w1))"
    and sn: "isValue (h1 ! dat) \<or> isNull (h1 ! dat)"
    by (simp_all add: dat_def h1_def)
  show ?thesis
    unfolding open_read_def Let_def assms(2)[symmetric] fv fromVariant_empty_map
    using sn len by (simp add: dat nth_append)
qed

text \<open>
  Claim C4 (as amended). A call of \<^verbatim>\<open>open\<close> with a backend that gets as far as
  \<^verbatim>\<open>backend->load\<close>, and loads a scalar or the invalid variant: with \<^verbatim>\<open>create\<close> true it
  returns a new source whose root is an empty map carrying the read-only flag that
  \<^verbatim>\<open>open\<close> computed, \<^verbatim>\<open>!info.isWritable() && (systemDir || info.exists())\<close>; with
  \<^verbatim>\<open>create\<close> false it returns a null pointer.
\<close>

theorem open_scalar_root_replaced:
  assumes "info = (if path = [] then ''profile'' else path)"
    and "\<not> (isAbsolute env info \<and> systemDir)"
    and "fname = cleanPath env (if \<not> isAbsolute env info
                         then getDir_filePath env (if systemDir then SystemConfigDir else ConfigDir) info
                         else info)"
    and "case fst (hash_value fname (sourceHash w)) of None \<Rightarrow> True | Some r \<Rightarrow> \<not> isValid r w"
    and "fs1 = (if dir_exists (fileSystem w) (absoluteDir env info) then fileSystem w
                else mkpath (absoluteDir env info) (fileSystem w))"
    and "load b fname fs1 = Invalid \<or> (\<exists>s. load b fname fs1 = VScalar s)"
    and "readOnly = (\<not> file_isWritable (fileSystem w) info \<and> (systemDir \<or> file_exists (fileSystem w) info))"
  shows
    "(\<exists>w1. ConfigSource_open env path systemDir True (Some b) w = (Some (length (sourceStore w)), w1)
        \<and> data (sourceStore w1 ! length (sourceStore w)) = Some (Suc (length (atomStore w)))
        \<and> atomStore w1 ! Suc (length (atomStore w)) = \<lparr>m_data = PMap [], m_readOnly = readOnly\<rparr>)
   \<and> (file_exists (fileSystem w) info \<and> dir_exists (fileSystem w) (absoluteDir env info) \<longrightarrow>
        fst (ConfigSource_open env path systemDir False (Some b) w) = None)"
proof -
  let ?hv = "hash_value fname (sourceHash w)"
  let ?w1 = "w\<lparr>sourceHash := snd ?hv\<rparr>"
  let ?dir = "absoluteDir env info"
  define w2 where "w2 = (if \<not> dir_exists (fileSystem ?w1) ?dir
                         then ?w1\<lparr>fileSystem := mkpath ?dir (fileSystem ?w1)\<rparr> else ?w1)"
  have nocache: "\<not> (case fst ?hv of None \<Rightarrow> False | Some r \<Rightarrow> isValid r w)"
    using assms(4) by (simp split: option.splits)
  have op: "ConfigSource_open env path systemDir create (Some b) w =
      open_load env systemDir create b fname info (fst ?hv) ?w1" for create
    unfolding open_with_backend[OF assms(1) assms(3)] using assms(2) nocache by auto
  have w2: "fileSystem w2 = fs1" "atomStore w2 = atomStore w" "sourceStore w2 = sourceStore w"
    using assms(5) by (simp_all add: w2_def)
  have ro: "readOnly = (\<not> file_isWritable (fileSystem w2) info \<and> (systemDir \<or> file_exists (fileSystem w2) info))"
    using assms(5,7) by (simp add: w2 mkpath_def)
  have ld: "load b fname (fileSystem w2) = Invalid \<or> (\<exists>s. load b fname (fileSystem w2) = VScalar s)"
    using assms(6) by (simp add: w2)
  have t: "open_load env systemDir True b fname info (fst ?hv) ?w1 = open_read systemDir True b fname info w2"
    by (simp add: open_load_def w2_def)
  have f: "file_exists (fileSystem w) info \<and> dir_exists (fileSystem w) ?dir \<Longrightarrow>
     open_load env systemDir False b fname info (fst ?hv) ?w1 = open_read systemDir False b fname info w2"
    by (simp add: open_load_def w2_def)
  from open_read_scalar_root[OF ld ro] show ?thesis
    unfolding op t using f by (auto simp: w2)
qed

theorem open_scalar_root_replaced_witness:
  "load ex_backend ''/home/u/t.json'' (fileSystem ex_w_ro) = Invalid
   \<and> (\<exists>w1. ConfigSource_open ex_env ''/home/u/t.json'' False True (Some ex_backend) ex_w_ro = (Some 0, w1)
        \<and> data (sourceStore w1 ! 0) = Some 1
        \<and> atomStore w1 ! 1 = \<lparr>m_data = PMap [], m_readOnly = True\<rparr>)
   \<and> fst (ConfigSource_open ex_env ''/home/u/t.json'' False False (Some ex_backend) ex_w_ro) = None"
proof -
  have h: "\<not> (isAbsolute ex_env ''/home/u/t.json'' \<and> False)"
    "''/home/u/t.json'' = cleanPath ex_env (if \<not> isAbsolute ex_env ''/home/u/t.json''
                         then getDir_filePath ex_env (if False then SystemConfigDir else ConfigDir) ''/home/u/t.json''
                         else ''/home/u/t.json'')"
    "case fst (hash_value ''/home/u/t.json'' (sourceHash ex_w_ro)) of None \<Rightarrow> True | Some r \<Rightarrow> \<not> isValid r ex_w_ro"
    "fileSystem ex_w_ro = (if dir_exists (fileSystem ex_w_ro) (absoluteDir ex_env ''/home/u/t.json'') then fileSystem ex_w_ro
                else mkpath (absoluteDir ex_env ''/home/u/t.json'') (fileSystem ex_w_ro))"
    "load ex_backend ''/home/u/t.json'' (fileSystem ex_w_ro) = Invalid \<or> (\<exists>s. load ex_backend ''/home/u/t.json'' (fileSystem ex_w_ro) = VScalar s)"
    "True = (\<not> file_isWritable (fileSystem ex_w_ro) ''/home/u/t.json'' \<and> (False \<or> file_exists (fileSystem ex_w_ro) ''/home/u/t.json''))"
    "load ex_backend ''/home/u/t.json'' (fileSystem ex_w_ro) = Invalid"
    "file_exists (fileSystem ex_w_ro) ''/home/u/t.json''"
    "dir_exists (fileSystem ex_w_ro) (absoluteDir ex_env ''/home/u/t.json'')"
    "length (sourceStore ex_w_ro) = 0" "length (atomStore ex_w_ro) = 0"
    by (simp_all add: ex_env_def ex_w_ro_def ex_world_def ex_hash_def ex_backend_def hash_value_def)
  from open_scalar_root_replaced[OF _ h(1) h(2) h(3) h(4) h(5) h(6), of "''/home/u/t.json''"] h(7-)
  show ?thesis by simp
qed

text \<open>
  Claim C4 as stated fails: the file exists and is not writable, the backend loads the
  invalid variant, \<^verbatim>\<open>create\<close> is true, and the root of the returned source is a
  read-only map.
\<close>

theorem open_root_readonly_counterexample:
  "load ex_backend ''/home/u/t.json'' (fileSystem ex_w_ro) = Invalid
   \<and> fst (ConfigSource_open ex_env ''/home/u/t.json'' False True (Some ex_backend) ex_w_ro) = Some 0
   \<and> data (sourceStore (snd (ConfigSource_open ex_env ''/home/u/t.json'' False True (Some ex_backend) ex_w_ro)) ! 0) = Some 1
   \<and> isMap (atomStore (snd (ConfigSource_open ex_env ''/home/u/t.json'' False True (Some ex_backend) ex_w_ro)) ! 1)
   \<and> isReadOnly (atomStore (snd (ConfigSource_open ex_env ''/home/u/t.json'' False True (Some ex_backend) ex_w_ro)) ! 1)"
  by (simp add: ConfigSource_open_def open_select_backend_def open_load_def open_read_def Let_def split_beta
        ex_env_def ex_w_ro_def ex_world_def ex_hash_def ex_backend_def hash_value_def hash_insert_def
        timer_start_def atom_defs isValid_def)

text \<open>
  Claim C7. The claim does not hold of the code. \<^verbatim>\<open>ConfigSourceHash::insert\<close> and a
  successful \<^verbatim>\<open>ConfigSourceHash::value\<close> restart the entry's timer with the argument
  \<^verbatim>\<open>5 * 60\<close>, that is 300; \<^verbatim>\<open>QBasicTimer::start\<close> takes milliseconds, and five minutes
  are 300000 of them.
\<close>

theorem cache_timer_interval:
  "map_option (\<lambda>it. msec (timer it)) (m_hash (hash_insert key v sh) key) = Some 300
   \<and> map_option (\<lambda>it. msec (timer it)) (m_hash (snd (hash_value key sh)) key)
       = map_option (\<lambda>it. 300) (m_hash sh key)
   \<and> (300 :: int) \<noteq> 5 * 60 * 1000"
  by (simp add: hash_insert_def hash_value_def timer_start_def Let_def split: option.splits)

subsection \<open>Reading through the layers\<close>

lemma wf_heap_iff:
  "wf_heap h \<longleftrightarrow>
     (\<forall>p < length h. \<forall>c \<in> set (children (m_data (h ! p))). p < c \<and> c < length h)"
  by (simp add: wf_heap_def list_all_iff Ball_def)

lemma reach_bounds: "q \<in> set (reach h p) \<Longrightarrow> p \<le> q \<and> q < length h"
proof (induction h p rule: reach.induct)
  case (1 h p)
  from "1.prems" show ?case
    apply (subst (asm) reach.simps)
    apply (auto split: if_splits dest!: "1.IH")
    done
qed

lemma reach_self: "p < length h \<Longrightarrow> p \<in> set (reach h p)"
  by (subst reach.simps) simp

lemma reach_child:
  "p < length h \<Longrightarrow> c \<in> set (children (m_data (h ! p))) \<Longrightarrow> p < c \<Longrightarrow>
     set (reach h c) \<subseteq> set (reach h p)"
  by (subst (2) reach.simps) auto

lemma toVariant_unfold_map:
  "p < length h \<Longrightarrow> m_data (h ! p) = PMap m \<Longrightarrow>
     toVariant h p = VMap (map (\<lambda>(k, c). (k, if p < c then toVariant h c else Invalid)) m)"
  by (subst toVariant.simps) simp

lemma toVariant_unfold_list:
  "p < length h \<Longrightarrow> m_data (h ! p) = PList l \<Longrightarrow>
     toVariant h p = VList (map (\<lambda>c. if p < c then toVariant h c else Invalid) l)"
  by (subst toVariant.simps) simp

lemma toVariant_unfold_value:
  "p < length h \<Longrightarrow> m_data (h ! p) = PValue v \<Longrightarrow> toVariant h p = v"
  by (subst toVariant.simps) simp

lemma toVariant_unfold_null:
  "p < length h \<Longrightarrow> m_data (h ! p) = PNull \<Longrightarrow> toVariant h p = Invalid"
  by (subst toVariant.simps) simp

lemma toVariant_frame:
  "wf_heap h \<Longrightarrow> p < length h \<Longrightarrow> length h \<le> length h' \<Longrightarrow>
   (\<forall>q \<in> set (reach h p). h' ! q = h ! q) \<Longrightarrow> toVariant h' p = toVariant h p"
proof (induction h p rule: toVariant.induct)
  case (1 h p)
  have same: "h' ! p = h ! p"
    using "1.prems"(2,4) reach_self by blast
  have p': "p < length h'"
    using "1.prems"(2,3) by simp
  have kids: "p < c \<and> c < length h" if "c \<in> set (children (m_data (h ! p)))" for c
    using "1.prems"(1,2) that unfolding wf_heap_iff by blast
  have sub: "\<forall>q \<in> set (reach h c). h' ! q = h ! q" if "c \<in> set (children (m_data (h ! p)))" for c
    using reach_child[OF "1.prems"(2) that] kids[OF that] "1.prems"(4) by blast
  show ?case
  proof (cases "m_data (h ! p)")
    case (PList l)
    have eq: "toVariant h' c = toVariant h c" if "c \<in> set l" for c
    proof -
      have c: "c \<in> set (children (m_data (h ! p)))" using that PList by simp
      show ?thesis
        using "1.IH"(1)[OF "1.prems"(2) PList that _ "1.prems"(1) _ "1.prems"(3) sub[OF c]] kids[OF c]
        by simp
    qed
    have "toVariant h' p = VList (map (\<lambda>c. if p < c then toVariant h' c else Invalid) l)"
      using toVariant_unfold_list[OF p'] same PList by simp
    also have "\<dots> = VList (map (\<lambda>c. if p < c then toVariant h c else Invalid) l)"
      using eq by simp
    also have "\<dots> = toVariant h p"
      using toVariant_unfold_list[OF "1.prems"(2) PList] by simp
    finally show ?thesis .
  next
    case (PMap m)
    have eq: "toVariant h' c = toVariant h c" if "(k, c) \<in> set m" for k c
    proof -
      have c: "c \<in> set (children (m_data (h ! p)))" using that PMap by force
      show ?thesis
        using "1.IH"(2)[OF "1.prems"(2) PMap that refl _ "1.prems"(1) _ "1.prems"(3) sub[OF c]] kids[OF c]
        by simp
    qed
    have "toVariant h' p = VMap (map (\<lambda>(k, c). (k, if p < c then toVariant h' c else Invalid)) m)"
      using toVariant_unfold_map[OF p'] same PMap by simp
    also have "\<dots> = VMap (map (\<lambda>(k, c). (k, if p < c then toVariant h c else Invalid)) m)"
      using eq by (auto intro!: map_cong)
    also have "\<dots> = toVariant h p"
      using toVariant_unfold_map[OF "1.prems"(2) PMap] by simp
    finally show ?thesis .
  next
    case (PValue v)
    then show ?thesis
      using toVariant_unfold_value[OF p', of v] toVariant_unfold_value[OF "1.prems"(2), of v] same
      by simp
  next
    case PNull
    then show ?thesis
      using toVariant_unfold_null[OF p'] toVariant_unfold_null[OF "1.prems"(2)] same
      by simp
  qed
qed

























subsection \<open>The child a read leaves behind\<close>












subsection \<open>Writing back what was read\<close>




lemma toVariant_extension:
  assumes "wf_heap h" and "c < length h" and "length h \<le> length h1"
    and "\<forall>q < length h. q \<noteq> r \<longrightarrow> h1 ! q = h ! q" and "r < c"
  shows "toVariant h1 c = toVariant h c"
proof (rule toVariant_frame[OF assms(1,2,3)])
  show "\<forall>q\<in>set (reach h c). h1 ! q = h ! q"
    using assms(4,5) by (auto dest: reach_bounds)
qed



lemma children_PMap: "children (PMap m) = map snd m"
  by simp












end
